theory Spec2Isabelle
  imports Main
begin

section \<open>The DDL handle of the PITR replay tool (pitr/ddl.go)\<close>

text \<open>
  A shallow embedding of \<^verbatim>\<open>src/pitr/ddl.go\<close>. The Go methods mutate the handle
  \<^verbatim>\<open>d *DDLHandle\<close> and return an \<^verbatim>\<open>error\<close>; here each of them takes the handle and
  returns the pair of the error (\<open>None\<close> for \<^verbatim>\<open>nil\<close>) and the handle as the call left it.
\<close>

subsection \<open>Errors\<close>

text \<open>
  The errors of the file, one constructor per place that builds one. \<open>ErrExternal\<close> is an
  error handed up from a collaborator (the SQL driver, the scratch engine, the parser),
  carried with the text of \<^verbatim>\<open>err.Error()\<close>. \<open>PanicNilDereference\<close> and
  \<open>PanicIndexOutOfRange\<close> stand for the Go run-time panics of a field read through a
  \<^verbatim>\<open>nil\<close> pointer and of an index past the end of a slice. \<^verbatim>\<open>errors.Trace\<close> only
  attaches a stack to an error and is the identity here.
\<close>

datatype SchemaState =
    StateNone
  | StateDeleteOnly
  | StateWriteOnly
  | StateWriteReorganization
  | StateDeleteReorganization
  | StatePublic

text \<open>
  \<^verbatim>\<open>model.ActionType\<close> of the parser library: the kinds the file names, \<open>ActionNone\<close>,
  and \<open>ActionOther n\<close> for every other kind the library defines (lock table, repair
  table, ...).
\<close>

datatype ActionType =
    ActionNone
  | ActionCreateSchema
  | ActionDropSchema
  | ActionCreateTable
  | ActionDropTable
  | ActionAddColumn
  | ActionDropColumn
  | ActionAddIndex
  | ActionDropIndex
  | ActionAddForeignKey
  | ActionDropForeignKey
  | ActionTruncateTable
  | ActionModifyColumn
  | ActionRebaseAutoID
  | ActionRenameTable
  | ActionSetDefaultValue
  | ActionShardRowID
  | ActionModifyTableComment
  | ActionRenameIndex
  | ActionAddTablePartition
  | ActionDropTablePartition
  | ActionCreateView
  | ActionModifyTableCharsetAndCollate
  | ActionTruncateTablePartition
  | ActionDropView
  | ActionRecoverTable
  | ActionModifySchemaCharsetAndCollate
  | ActionOther nat

datatype error =
    ErrTableNotExist
  | ErrSchemaNotFound string
  | ErrUnknownTableState SchemaState
  | ErrUnknownDDLAction ActionType
  | ErrUnknownDDLType string
  | ErrInvalidDDL string
  | ErrExternal string
  | PanicNilDereference
  | PanicIndexOutOfRange

subsection \<open>The change-log events (model.Job of the parser library)\<close>

datatype JobState =
    JobStateNone
  | JobStateRunning
  | JobStateRollingback
  | JobStateRollbackDone
  | JobStateDone
  | JobStateCancelled
  | JobStateSynced
  | JobStateCancelling

text \<open>\<^verbatim>\<open>model.CIStr\<close>: a name as written (the field \<^verbatim>\<open>O\<close>) and in lower case (the field \<^verbatim>\<open>L\<close>).\<close>

record CIStr =
  O_str :: string
  L_str :: string

text \<open>
  \<^verbatim>\<open>model.TableInfo\<close>: the stable identity, the name and the lifecycle state are the
  fields the file reads; \<open>Payload_tbl\<close> is the rest of the structure the event carries.
\<close>

record 'p TableInfo =
  ID_tbl :: int
  Name_tbl :: CIStr
  State_tbl :: SchemaState
  Payload_tbl :: 'p

record 'p DBInfo =
  ID_db :: int
  Name_db :: CIStr
  Charset :: string
  Collate :: string
  Tables :: "'p TableInfo list"
  State_db :: SchemaState

text \<open>\<^verbatim>\<open>model.HistoryInfo\<close>: both fields are pointers, \<open>None\<close> is \<^verbatim>\<open>nil\<close>.\<close>

record 'p HistoryInfo =
  DBInfo :: "'p DBInfo option"
  TableInfo :: "'p TableInfo option"

record 'p Job =
  Type :: ActionType
  SchemaName :: string
  State_job :: JobState
  BinlogInfo :: "'p HistoryInfo option"
  Query :: string

subsection \<open>The derived table structure\<close>

record indexInfo =
  name :: string
  columns :: "string list"

text \<open>
  \<^verbatim>\<open>primaryKey *indexInfo\<close> is \<^verbatim>\<open>nil\<close> or the address of an element of
  \<^verbatim>\<open>uniqueKeys\<close>: \<open>None\<close>, or \<open>Some i\<close> for \<^verbatim>\<open>&uniqueKeys[i]\<close>.
\<close>

record tableInfo =
  info_schema :: string
  info_table :: string
  info_columns :: "string list"
  primaryKey :: "nat option"
  uniqueKeys :: "indexInfo list"

text \<open>What \<^verbatim>\<open>*info.primaryKey\<close> reads.\<close>

definition primaryKey_deref :: "tableInfo \<Rightarrow> indexInfo option" where
  "primaryKey_deref info =
     (case primaryKey info of
        None \<Rightarrow> None
      | Some i \<Rightarrow> if i < length (uniqueKeys info) then Some (uniqueKeys info ! i) else None)"

subsection \<open>The handle and its collaborators\<close>

text \<open>
  The statements of a batch as the parser returns them (\<^verbatim>\<open>ast.StmtNode\<close>): the shapes
  the resolver dispatches on, and \<open>OtherStmt\<close> for every other kind of statement.
\<close>

record TableName =
  Schema :: CIStr
  Name :: CIStr

datatype StmtNode =
    UseStmt string
  | CreateDatabaseStmt string
  | DropDatabaseStmt string
  | TruncateTableStmt TableName
  | CreateIndexStmt TableName
  | CreateTableStmt TableName
  | DropIndexStmt TableName
  | AlterTableStmt TableName
  | DropTableStmt "TableName list"
  | RenameTableStmt TableName TableName
  | OtherStmt

text \<open>
  The answer of \<^verbatim>\<open>db.Query\<close>: \<open>Inl msg\<close> when the query fails, else the rows in the
  order the engine returns them, each \<open>Inl msg\<close> when \<^verbatim>\<open>rows.Scan\<close> fails on it, and
  the error \<^verbatim>\<open>rows.Err()\<close> reports after the last row.
\<close>

type_synonym 'r query_result = "string + ((string + 'r) list \<times> string option)"

text \<open>
  What the file calls and does not define: the SQL parser, the scratch engine with state
  \<open>'e\<close> behind \<^verbatim>\<open>d.db\<close> (statement execution, the two catalog views), the helpers
  \<^verbatim>\<open>quoteDB\<close> and \<^verbatim>\<open>quoteSchema\<close> of the package, and \<^verbatim>\<open>strings.ToLower\<close>. They are
  parameters of the model: every theorem holds for whatever they compute.
  \<open>Exec\<close> returns the message of the error (\<open>None\<close> on success) and the engine's state
  after the statement; the two views read the state and leave it as it is.
\<close>

record 'e collaborators =
  Parse :: "string \<Rightarrow> string + StmtNode list"
  Exec :: "'e \<Rightarrow> string \<Rightarrow> string option \<times> 'e"
  QueryCols :: "'e \<Rightarrow> string \<Rightarrow> string \<Rightarrow> (string \<times> string) query_result"
  QueryUniqKeys :: "'e \<Rightarrow> string \<Rightarrow> string \<Rightarrow> (int \<times> string \<times> int \<times> string) query_result"
  quoteDB :: "string \<Rightarrow> string"
  quoteSchema :: "string \<Rightarrow> string \<Rightarrow> string"
  ToLower :: "string \<Rightarrow> string"

text \<open>
  \<^verbatim>\<open>DDLHandle\<close>. \<open>tableInfos\<close> is the Table Info Cache (a \<^verbatim>\<open>sync.Map\<close>),
  \<open>lastDBInfoMap\<close> the accelerator's catalog. The Go map holds pointers to database
  definitions; here its values are the definitions themselves, and a write through the
  pointer read under a key is an update of the entry under that key. This is the Go
  behaviour as long as no two keys hold the same pointer and no event holds a pointer
  that is in the map, which is so for a catalog built by the accelerator from events
  decoded one by one. \<open>tidbServer\<close> is part of the engine behind \<open>db\<close>.
\<close>

record ('e, 'p) DDLHandle =
  db :: 'e
  tableInfos :: "string \<rightharpoonup> tableInfo"
  historyDDLs :: "'p Job list"
  lastDBInfoMap :: "string \<rightharpoonup> 'p DBInfo"
  accelerateEnable :: bool

subsection \<open>The job filter\<close>

text \<open>\<^verbatim>\<open>Job.IsSynced\<close> and \<^verbatim>\<open>Job.IsDone\<close> of the parser library compare the job's state.\<close>

definition IsSynced :: "'p Job \<Rightarrow> bool" where
  "IsSynced job = (State_job job = JobStateSynced)"

definition IsDone :: "'p Job \<Rightarrow> bool" where
  "IsDone job = (State_job job = JobStateDone)"

definition skipJob :: "'p Job \<Rightarrow> bool" where
  "skipJob job = (\<not> IsSynced job \<and> \<not> IsDone job)"

subsection \<open>The accelerator\<close>

text \<open>The two case lists of the switch on \<^verbatim>\<open>job.Type\<close>, in the order of the source.\<close>

definition schemaLevelActions :: "ActionType list" where
  "schemaLevelActions =
     [ActionCreateSchema, ActionModifySchemaCharsetAndCollate, ActionDropSchema]"

definition tableLevelActions :: "ActionType list" where
  "tableLevelActions =
     [ActionCreateTable, ActionCreateView, ActionDropTable, ActionDropView,
      ActionDropTablePartition, ActionTruncateTablePartition, ActionAddColumn,
      ActionDropColumn, ActionModifyColumn, ActionSetDefaultValue, ActionAddIndex,
      ActionDropIndex, ActionRenameIndex, ActionAddForeignKey, ActionDropForeignKey,
      ActionTruncateTable, ActionRebaseAutoID, ActionRenameTable, ActionShardRowID,
      ActionModifyTableComment, ActionAddTablePartition, ActionModifyTableCharsetAndCollate,
      ActionRecoverTable]"

text \<open>
  The loop \<^verbatim>\<open>for i, t := range v.Tables\<close> of the public branch: the first table
  with the new table's ID is overwritten; \<open>None\<close> when the loop ends without a match.
\<close>

fun substituteTable :: "'p TableInfo \<Rightarrow> 'p TableInfo list \<Rightarrow> 'p TableInfo list option" where
  "substituteTable newTableInfo [] = None"
| "substituteTable newTableInfo (t # ts) =
     (if ID_tbl t = ID_tbl newTableInfo then Some (newTableInfo # ts)
      else map_option ((#) t) (substituteTable newTableInfo ts))"

text \<open>
  The loop of the dropped branch: \<^verbatim>\<open>append(v.Tables[:i], v.Tables[i+1:]...)\<close> at
  the first table with the ID; \<open>None\<close> when no table has it.
\<close>

fun removeTable :: "'p TableInfo \<Rightarrow> 'p TableInfo list \<Rightarrow> 'p TableInfo list option" where
  "removeTable stateNoneTableInfo [] = None"
| "removeTable stateNoneTableInfo (t # ts) =
     (if ID_tbl t = ID_tbl stateNoneTableInfo then Some ts
      else map_option ((#) t) (removeTable stateNoneTableInfo ts))"

definition AccelerateHistoryDDLs ::
  "'e collaborators \<Rightarrow> ('e, 'p) DDLHandle \<Rightarrow> 'p Job \<Rightarrow> error option \<times> ('e, 'p) DDLHandle" where
  "AccelerateHistoryDDLs env d job =
     (if Type job \<in> set schemaLevelActions then
        (case BinlogInfo job of
           None \<Rightarrow> (Some PanicNilDereference, d)
         | Some bi \<Rightarrow>
             (case DBInfo bi of
                None \<Rightarrow> (Some PanicNilDereference, d)
              | Some dbInfo \<Rightarrow>
                  let d1 = (if State_db dbInfo = StatePublic
                            then d\<lparr>lastDBInfoMap :=
                                     (lastDBInfoMap d)(quoteDB env (L_str (Name_db dbInfo)) \<mapsto> dbInfo)\<rparr>
                            else d);
                      d2 = (if State_db dbInfo = StateNone
                            then d1\<lparr>lastDBInfoMap :=
                                      (lastDBInfoMap d1)(quoteDB env (L_str (Name_db dbInfo)) := None)\<rparr>
                            else d1)
                  in (None, d2)))
      else if Type job \<in> set tableLevelActions then
        (case BinlogInfo job of
           None \<Rightarrow> (Some PanicNilDereference, d)
         | Some bi \<Rightarrow>
             (case TableInfo bi of
                None \<Rightarrow> (Some PanicNilDereference, d)
              | Some tblInfo \<Rightarrow>
                  if State_tbl tblInfo = StatePublic then
                    (case lastDBInfoMap d (quoteDB env (ToLower env (SchemaName job))) of
                       None \<Rightarrow> (Some (ErrSchemaNotFound (SchemaName job)), d)
                     | Some v \<Rightarrow>
                         (case substituteTable tblInfo (Tables v) of
                            Some ts \<Rightarrow>
                              (None, d\<lparr>lastDBInfoMap :=
                                 (lastDBInfoMap d)(quoteDB env (ToLower env (SchemaName job)) \<mapsto>
                                    v\<lparr>Tables := ts\<rparr>)\<rparr>)
                          | None \<Rightarrow>
                              (None, d\<lparr>lastDBInfoMap :=
                                 (lastDBInfoMap d)(quoteDB env (ToLower env (SchemaName job)) \<mapsto>
                                    v\<lparr>Tables := Tables v @ [tblInfo]\<rparr>)\<rparr>)))
                  else if State_tbl tblInfo = StateNone then
                    (case lastDBInfoMap d (quoteDB env (ToLower env (SchemaName job))) of
                       None \<Rightarrow> (Some (ErrSchemaNotFound (SchemaName job)), d)
                     | Some v \<Rightarrow>
                         (case removeTable tblInfo (Tables v) of
                            Some ts \<Rightarrow>
                              (None, d\<lparr>lastDBInfoMap :=
                                 (lastDBInfoMap d)(quoteDB env (ToLower env (SchemaName job)) \<mapsto>
                                    v\<lparr>Tables := ts\<rparr>)\<rparr>)
                          | None \<Rightarrow> (None, d)))
                  else (Some (ErrUnknownTableState (State_tbl tblInfo)), d)))
      else (Some (ErrUnknownDDLAction (Type job)), d))"

subsection \<open>Deriving a table's structure from the scratch engine\<close>

text \<open>\<^verbatim>\<open>strings.Contains(s, substr)\<close>: \<open>substr\<close> occurs in \<open>s\<close> at some offset.\<close>

fun strings_Contains :: "string \<Rightarrow> string \<Rightarrow> bool" where
  "strings_Contains [] substr = (substr = [])"
| "strings_Contains (c # s) substr =
     (take (length substr) (c # s) = substr \<or> strings_Contains s substr)"

definition isGenerated :: "string \<Rightarrow> bool" where
  "isGenerated extra =
     (strings_Contains extra ''VIRTUAL GENERATED'' \<or> strings_Contains extra ''STORED GENERATED'')"

text \<open>The loop \<^verbatim>\<open>for rows.Next()\<close> of \<^verbatim>\<open>getColsOfTbl\<close>, from the rows still to come.\<close>

fun colsLoop :: "(string + string \<times> string) list \<Rightarrow> string list \<Rightarrow> error + string list" where
  "colsLoop [] cols = Inr cols"
| "colsLoop (Inl msg # rows) cols = Inl (ErrExternal msg)"
| "colsLoop (Inr (colName, extra) # rows) cols =
     (if isGenerated extra then colsLoop rows cols else colsLoop rows (cols @ [colName]))"

definition getColsOfTbl :: "'e collaborators \<Rightarrow> 'e \<Rightarrow> string \<Rightarrow> string \<Rightarrow> error + string list" where
  "getColsOfTbl env e schema table =
     (case QueryCols env e schema table of
        Inl msg \<Rightarrow> Inl (ErrExternal msg)
      | Inr (rows, rowsErr) \<Rightarrow>
          (case colsLoop rows [] of
             Inl err \<Rightarrow> Inl err
           | Inr cols \<Rightarrow>
               (case rowsErr of
                  Some msg \<Rightarrow> Inl (ErrExternal msg)
                | None \<Rightarrow> if length cols = 0 then Inl ErrTableNotExist else Inr cols)))"

text \<open>
  The inner loop of \<^verbatim>\<open>getUniqKeys\<close>: the column is appended to the first index with
  the row's key name; \<open>None\<close> when the loop ends with \<^verbatim>\<open>i == len(uniqueKeys)\<close>.
\<close>

fun appendColumn :: "string \<Rightarrow> string \<Rightarrow> indexInfo list \<Rightarrow> indexInfo list option" where
  "appendColumn keyName columnName [] = None"
| "appendColumn keyName columnName (u # us) =
     (if name u = keyName then Some (u\<lparr>columns := columns u @ [columnName]\<rparr> # us)
      else map_option ((#) u) (appendColumn keyName columnName us))"

fun uniqKeysLoop ::
  "(string + int \<times> string \<times> int \<times> string) list \<Rightarrow> indexInfo list \<Rightarrow> error + indexInfo list" where
  "uniqKeysLoop [] uks = Inr uks"
| "uniqKeysLoop (Inl msg # rows) uks = Inl (ErrExternal msg)"
| "uniqKeysLoop (Inr (nonUnique, keyName, seqInIndex, columnName) # rows) uks =
     (if nonUnique = 1 then uniqKeysLoop rows uks
      else
        (case appendColumn keyName columnName uks of
           Some uks' \<Rightarrow> uniqKeysLoop rows uks'
         | None \<Rightarrow> uniqKeysLoop rows (uks @ [\<lparr>name = keyName, columns = [columnName]\<rparr>])))"

definition getUniqKeys :: "'e collaborators \<Rightarrow> 'e \<Rightarrow> string \<Rightarrow> string \<Rightarrow> error + indexInfo list" where
  "getUniqKeys env e schema table =
     (case QueryUniqKeys env e schema table of
        Inl msg \<Rightarrow> Inl (ErrExternal msg)
      | Inr (rows, rowsErr) \<Rightarrow>
          (case uniqKeysLoop rows [] of
             Inl err \<Rightarrow> Inl err
           | Inr uks \<Rightarrow>
               (case rowsErr of
                  Some msg \<Rightarrow> Inl (ErrExternal msg)
                | None \<Rightarrow> Inr uks)))"

text \<open>
  The loop of \<^verbatim>\<open>getTableInfo\<close> that puts the primary key first, from index \<open>i\<close>. The
  Go assignment \<^verbatim>\<open>a[i], a[0] = a[0], a[i]\<close> reads both elements before it writes.
\<close>

function primaryKeyLoop :: "nat \<Rightarrow> tableInfo \<Rightarrow> tableInfo" where
  "primaryKeyLoop i info =
     (if i < length (uniqueKeys info) then
        if name (uniqueKeys info ! i) = ''PRIMARY'' then
          info\<lparr>uniqueKeys := (uniqueKeys info)[i := uniqueKeys info ! 0, 0 := uniqueKeys info ! i],
               primaryKey := Some 0\<rparr>
        else primaryKeyLoop (i + 1) info
      else info)"
  by pat_completeness auto
termination
  by (relation "measure (\<lambda>(i, info). length (uniqueKeys info) - i)") auto

definition getTableInfo :: "'e collaborators \<Rightarrow> 'e \<Rightarrow> string \<Rightarrow> string \<Rightarrow> error + tableInfo" where
  "getTableInfo env e schema table =
     (case getColsOfTbl env e schema table of
        Inl err \<Rightarrow> Inl err
      | Inr cols \<Rightarrow>
          (case getUniqKeys env e schema table of
             Inl err \<Rightarrow> Inl err
           | Inr uks \<Rightarrow>
               Inr (primaryKeyLoop 0
                      \<lparr>info_schema = schema, info_table = table, info_columns = cols,
                       primaryKey = None, uniqueKeys = uks\<rparr>)))"

subsection \<open>Resolving schema and table from the statement text\<close>

text \<open>
  The body the table statements share: the schema of the statement's table when it names
  one, and the table's name.
\<close>

definition ofTableName :: "TableName \<Rightarrow> string \<Rightarrow> string \<times> string" where
  "ofTableName tn schema =
     ((if length (O_str (Schema tn)) \<noteq> 0 then O_str (Schema tn) else schema), O_str (Name tn))"

text \<open>
  The loop over the statements, with the variables \<^verbatim>\<open>schema\<close>, \<^verbatim>\<open>table\<close> and
  \<^verbatim>\<open>haveUseStmt\<close> as they stand before the statement.
\<close>

fun stmtsLoop ::
  "string \<Rightarrow> StmtNode list \<Rightarrow> string \<Rightarrow> string \<Rightarrow> bool \<Rightarrow> error + string \<times> string \<times> bool" where
  "stmtsLoop ddlQuery [] schema table haveUseStmt = Inr (schema, table, haveUseStmt)"
| "stmtsLoop ddlQuery (UseStmt dbName # stmts) schema table haveUseStmt =
     stmtsLoop ddlQuery stmts dbName table True"
| "stmtsLoop ddlQuery (CreateDatabaseStmt dbName # stmts) schema table haveUseStmt =
     stmtsLoop ddlQuery stmts dbName table haveUseStmt"
| "stmtsLoop ddlQuery (DropDatabaseStmt dbName # stmts) schema table haveUseStmt =
     stmtsLoop ddlQuery stmts dbName table haveUseStmt"
| "stmtsLoop ddlQuery (TruncateTableStmt tn # stmts) schema table haveUseStmt =
     stmtsLoop ddlQuery stmts (fst (ofTableName tn schema)) (snd (ofTableName tn schema)) haveUseStmt"
| "stmtsLoop ddlQuery (CreateIndexStmt tn # stmts) schema table haveUseStmt =
     stmtsLoop ddlQuery stmts (fst (ofTableName tn schema)) (snd (ofTableName tn schema)) haveUseStmt"
| "stmtsLoop ddlQuery (CreateTableStmt tn # stmts) schema table haveUseStmt =
     stmtsLoop ddlQuery stmts (fst (ofTableName tn schema)) (snd (ofTableName tn schema)) haveUseStmt"
| "stmtsLoop ddlQuery (DropIndexStmt tn # stmts) schema table haveUseStmt =
     stmtsLoop ddlQuery stmts (fst (ofTableName tn schema)) (snd (ofTableName tn schema)) haveUseStmt"
| "stmtsLoop ddlQuery (AlterTableStmt tn # stmts) schema table haveUseStmt =
     stmtsLoop ddlQuery stmts (fst (ofTableName tn schema)) (snd (ofTableName tn schema)) haveUseStmt"
| "stmtsLoop ddlQuery (DropTableStmt [] # stmts) schema table haveUseStmt =
     Inl PanicIndexOutOfRange"
| "stmtsLoop ddlQuery (DropTableStmt (tn # tns) # stmts) schema table haveUseStmt =
     stmtsLoop ddlQuery stmts (fst (ofTableName tn schema)) (snd (ofTableName tn schema)) haveUseStmt"
| "stmtsLoop ddlQuery (RenameTableStmt oldTable newTable # stmts) schema table haveUseStmt =
     stmtsLoop ddlQuery stmts (fst (ofTableName newTable schema)) (snd (ofTableName newTable schema))
       haveUseStmt"
| "stmtsLoop ddlQuery (OtherStmt # stmts) schema table haveUseStmt =
     Inl (ErrUnknownDDLType ddlQuery)"

definition parserSchemaTableFromDDL :: "'e collaborators \<Rightarrow> string \<Rightarrow> error + string \<times> string" where
  "parserSchemaTableFromDDL env ddlQuery =
     (case Parse env ddlQuery of
        Inl msg \<Rightarrow> Inl (ErrExternal msg)
      | Inr stmts \<Rightarrow>
          (case stmtsLoop ddlQuery stmts [] [] False of
             Inl err \<Rightarrow> Inl err
           | Inr (schema, table, haveUseStmt) \<Rightarrow>
               if haveUseStmt then
                 (if length stmts \<noteq> 2 then Inl (ErrInvalidDDL ddlQuery) else Inr (schema, table))
               else
                 (if length stmts \<noteq> 1 then Inl (ErrInvalidDDL ddlQuery) else Inr (schema, table))))"

subsection \<open>Executing a statement on the scratch engine\<close>

text \<open>
  \<^verbatim>\<open>ExecuteDDL\<close> calls itself after two of the engine's errors, and nothing bounds how
  often: the result is \<open>None\<close> when the calls never end. The handle returned carries the
  engine's state after the statements that ran and the cache after the writes that
  happened. The third argument is the caller's schema hint.
\<close>

partial_function (option) ExecuteDDL ::
  "'e collaborators \<Rightarrow> ('e, 'p) DDLHandle \<Rightarrow> string \<Rightarrow> string \<Rightarrow>
     (error option \<times> ('e, 'p) DDLHandle) option" where
  "ExecuteDDL env d schemaHint ddl =
     (if length ddl = 0 then Some (None, d)
      else
        (case parserSchemaTableFromDDL env ddl of
           Inl err \<Rightarrow> Some (Some err, d)
         | Inr (schemaInDDL, table) \<Rightarrow>
             (let schema = (if length schemaHint = 0 then schemaInDDL else schemaHint) in
              (case Exec env (db d) ddl of
                 (Some msg, e') \<Rightarrow>
                   if strings_Contains msg ''Unknown database'' then
                     Option.bind
                       (ExecuteDDL env (d\<lparr>db := e'\<rparr>) schema
                          (''create database if not exists `'' @ schema @ ''`''))
                       (\<lambda>r. case r of
                              (Some err, d') \<Rightarrow> Some (Some err, d')
                            | (None, d') \<Rightarrow> ExecuteDDL env d' schema ddl)
                   else if strings_Contains msg ''No database selected'' then
                     (if length schema \<noteq> 0 then
                        ExecuteDDL env (d\<lparr>db := e'\<rparr>) schema (''use '' @ schema @ ''; '' @ ddl)
                      else Some (Some (ErrExternal msg), d\<lparr>db := e'\<rparr>))
                   else if strings_Contains msg ''already exists'' then
                     Some (None, d\<lparr>db := e'\<rparr>)
                   else Some (Some (ErrExternal msg), d\<lparr>db := e'\<rparr>)
               | (None, e') \<Rightarrow>
                   (case getTableInfo env e' schema table of
                      Inl err \<Rightarrow>
                        if err = ErrTableNotExist then Some (None, d\<lparr>db := e'\<rparr>)
                        else Some (Some err, d\<lparr>db := e'\<rparr>)
                    | Inr info \<Rightarrow>
                        Some (None, d\<lparr>db := e',
                                       tableInfos :=
                                         (tableInfos d)(quoteSchema env schema table \<mapsto> info)\<rparr>))))))"

text \<open>\<^verbatim>\<open>GetTableInfo\<close>: the cached entry, else the structure derived from the engine.\<close>

definition GetTableInfo ::
  "'e collaborators \<Rightarrow> ('e, 'p) DDLHandle \<Rightarrow> string \<Rightarrow> string \<Rightarrow> error + tableInfo" where
  "GetTableInfo env d schema table =
     (case tableInfos d (quoteSchema env schema table) of
        Some info \<Rightarrow> Inr info
      | None \<Rightarrow> getTableInfo env (db d) schema table)"

subsection \<open>Replaying the history\<close>

text \<open>
  The loop of \<^verbatim>\<open>ExecuteHistoryDDLs\<close> over the jobs still to come; it stops at the
  first error. \<open>None\<close> when a call of \<open>ExecuteDDL\<close> never returns.
\<close>

fun ExecuteHistoryDDLs ::
  "'e collaborators \<Rightarrow> ('e, 'p) DDLHandle \<Rightarrow> 'p Job list \<Rightarrow>
     (error option \<times> ('e, 'p) DDLHandle) option" where
  "ExecuteHistoryDDLs env d [] = Some (None, d)"
| "ExecuteHistoryDDLs env d (ddl # rest) =
     (if skipJob ddl then ExecuteHistoryDDLs env d rest
      else
        (let schemaName =
               (case BinlogInfo ddl of
                  None \<Rightarrow> []
                | Some bi \<Rightarrow>
                    (case DBInfo bi of None \<Rightarrow> [] | Some dbInfo \<Rightarrow> O_str (Name_db dbInfo)))
         in
           if accelerateEnable d then
             (case AccelerateHistoryDDLs env d ddl of
                (Some err, d') \<Rightarrow> Some (Some err, d')
              | (None, d') \<Rightarrow> ExecuteHistoryDDLs env d' rest)
           else
             (case ExecuteDDL env d schemaName (Query ddl) of
                None \<Rightarrow> None
              | Some (Some err, d') \<Rightarrow> Some (Some err, d')
              | Some (None, d') \<Rightarrow> ExecuteHistoryDDLs env d' rest)))"

subsection \<open>The key interval mapper\<close>

text \<open>
  The mapper keeps its pairs in the table \<^verbatim>\<open>_interval_map_._inter_map_\<close> of the scratch
  engine, \<^verbatim>\<open>(curKey varchar(128) unique, srcKey varchar(128))\<close>. The state of the
  engine, as far as the mapper is concerned, is that table: \<open>None\<close> before it is created,
  else its rows \<open>(curKey, srcKey)\<close> in insertion order.
\<close>

type_synonym inter_map = "(string \<times> string) list option"

text \<open>
  The statement texts. \<^verbatim>\<open>fmt.Sprintf\<close> pastes the keys between the quotes as they
  are, with no escaping.
\<close>

definition useIntervalDB :: string where
  "useIntervalDB = ''USE _interval_map_;''"

definition selectHead :: string where
  "selectHead = ''SELECT srcKey FROM _inter_map_ WHERE curKey = '' @ [CHR 0x27]"

definition selectText :: "string \<Rightarrow> string" where
  "selectText key = selectHead @ key @ [CHR 0x27]"

definition insertHead :: string where
  "insertHead = ''INSERT INTO _interval_map_._inter_map_ VALUES ('' @ [CHR 0x27]"

definition insertSep :: string where
  "insertSep = CHR 0x27 # '', '' @ [CHR 0x27]"

definition insertTail :: string where
  "insertTail = CHR 0x27 # '')''"

definition insertText :: "string \<Rightarrow> string \<Rightarrow> string" where
  "insertText curKey srcKey = insertHead @ curKey @ insertSep @ srcKey @ insertTail"

text \<open>
  A key that a statement text carries unchanged into the engine: at most 128 bytes, each
  a printable ASCII character other than the space, the quote and the backslash.
\<close>

definition plainChar :: "char \<Rightarrow> bool" where
  "plainChar c =
     (33 \<le> (of_char c :: nat) \<and> (of_char c :: nat) \<le> 126 \<and>
      c \<noteq> CHR 0x27 \<and> c \<noteq> CHR 0x5C)"

definition plainKey :: "string \<Rightarrow> bool" where
  "plainKey key = (length key \<le> 128 \<and> list_all plainChar key)"

text \<open>
  How the engine reads a statement text. \<open>keyOfSelect\<close> recognizes the batch
  \<^verbatim>\<open>USE _interval_map_;SELECT srcKey FROM _inter_map_ WHERE curKey = '<key>'\<close> with a
  plain key, \<open>keysOfInsert\<close> the statement
  \<^verbatim>\<open>INSERT INTO _interval_map_._inter_map_ VALUES ('<curKey>', '<srcKey>')\<close> with two
  plain keys. Every other text, in particular one built from a key with a quote or a
  backslash in it, is none of the two.
\<close>

definition stripPrefix :: "string \<Rightarrow> string \<Rightarrow> string option" where
  "stripPrefix p s = (if take (length p) s = p then Some (drop (length p) s) else None)"

definition keyOfSelect :: "string \<Rightarrow> string option" where
  "keyOfSelect text =
     (case stripPrefix (useIntervalDB @ selectHead) text of
        None \<Rightarrow> None
      | Some r \<Rightarrow>
          if r \<noteq> [] \<and> last r = CHR 0x27 \<and> plainKey (butlast r) then Some (butlast r)
          else None)"

definition keysOfInsert :: "string \<Rightarrow> (string \<times> string) option" where
  "keysOfInsert text =
     (case stripPrefix insertHead text of
        None \<Rightarrow> None
      | Some r \<Rightarrow>
          (case stripPrefix insertSep (dropWhile (\<lambda>c. c \<noteq> CHR 0x27) r) of
             None \<Rightarrow> None
           | Some r' \<Rightarrow>
               if dropWhile (\<lambda>c. c \<noteq> CHR 0x27) r' = insertTail \<and>
                  plainKey (takeWhile (\<lambda>c. c \<noteq> CHR 0x27) r) \<and>
                  plainKey (takeWhile (\<lambda>c. c \<noteq> CHR 0x27) r')
               then Some (takeWhile (\<lambda>c. c \<noteq> CHR 0x27) r, takeWhile (\<lambda>c. c \<noteq> CHR 0x27) r')
               else None))"

text \<open>
  The select on the table: the \<^verbatim>\<open>srcKey\<close> of the rows whose \<^verbatim>\<open>curKey\<close> is the key,
  compared byte by byte.
\<close>

definition selectSrcKey :: "inter_map \<Rightarrow> string \<Rightarrow> string query_result" where
  "selectSrcKey tbl key =
     (case tbl of
        None \<Rightarrow> Inl ''Table _interval_map_._inter_map_ doesn't exist''
      | Some rows \<Rightarrow> Inr (map (\<lambda>r. Inr (snd r)) (filter (\<lambda>r. fst r = key) rows), None))"

text \<open>The insert on the table: refused when a row has the \<^verbatim>\<open>curKey\<close> (the column is unique).\<close>

definition insertRow :: "inter_map \<Rightarrow> string \<Rightarrow> string \<Rightarrow> string option \<times> inter_map" where
  "insertRow tbl curKey srcKey =
     (case tbl of
        None \<Rightarrow> (Some ''Table _interval_map_._inter_map_ doesn't exist'', tbl)
      | Some rows \<Rightarrow>
          if curKey \<in> set (map fst rows) then (Some ''Duplicate entry for key curKey'', tbl)
          else (None, Some (rows @ [(curKey, srcKey)])))"

text \<open>
  What the engine does with a text that is none of the two statements over plain keys (a
  syntax error, another predicate, another statement) is not known here: it is a
  parameter, and may answer anything and leave the table in any state.
\<close>

record otherSQL =
  otherQuery :: "inter_map \<Rightarrow> string \<Rightarrow> string query_result \<times> inter_map"
  otherExec :: "inter_map \<Rightarrow> string \<Rightarrow> string option \<times> inter_map"

text \<open>\<^verbatim>\<open>d.db.Query\<close> and \<^verbatim>\<open>d.db.Exec\<close> on a statement text.\<close>

definition dbQuery :: "otherSQL \<Rightarrow> inter_map \<Rightarrow> string \<Rightarrow> string query_result \<times> inter_map" where
  "dbQuery eng tbl text =
     (case keyOfSelect text of
        Some key \<Rightarrow> (selectSrcKey tbl key, tbl)
      | None \<Rightarrow> otherQuery eng tbl text)"

definition dbExec :: "otherSQL \<Rightarrow> inter_map \<Rightarrow> string \<Rightarrow> string option \<times> inter_map" where
  "dbExec eng tbl text =
     (case keysOfInsert text of
        Some (curKey, srcKey) \<Rightarrow> insertRow tbl curKey srcKey
      | None \<Rightarrow> otherExec eng tbl text)"

text \<open>
  \<^verbatim>\<open>fetchMapKeyFromDB\<close>: \<^verbatim>\<open>rows.Next()\<close> and \<^verbatim>\<open>rows.Scan\<close> read the first row; when
  there is none, or it does not scan, the result is the empty string and no error. The
  second component is the table after the query.
\<close>

definition fetchMapKeyFromDB ::
  "otherSQL \<Rightarrow> inter_map \<Rightarrow> string \<Rightarrow> (error + string) \<times> inter_map" where
  "fetchMapKeyFromDB eng tbl key =
     (case dbQuery eng tbl (useIntervalDB @ selectText key) of
        (Inl msg, tbl') \<Rightarrow> (Inl (ErrExternal msg), tbl')
      | (Inr (rows, rowsErr), tbl') \<Rightarrow>
          (case rows of
             [] \<Rightarrow> (Inr [], tbl')
           | Inl msg # rest \<Rightarrow> (Inr [], tbl')
           | Inr cKey # rest \<Rightarrow> (Inr cKey, tbl')))"

definition insertMapKeyFromDB ::
  "otherSQL \<Rightarrow> inter_map \<Rightarrow> string \<Rightarrow> string \<Rightarrow> error option \<times> inter_map" where
  "insertMapKeyFromDB eng tbl newKey oldKey =
     (case fetchMapKeyFromDB eng tbl oldKey of
        (Inl err, tbl1) \<Rightarrow> (Some err, tbl1)
      | (Inr s, tbl1) \<Rightarrow>
          (case dbExec eng tbl1
                  (if s \<noteq> [] then insertText newKey s else insertText newKey oldKey) of
             (Some msg, tbl2) \<Rightarrow> (Some (ErrExternal msg), tbl2)
           | (None, tbl2) \<Rightarrow> (None, tbl2)))"

subsection \<open>The batch shapes of the specification\<close>

definition isUseStmt :: "StmtNode \<Rightarrow> bool" where
  "isUseStmt s = (case s of UseStmt dbName \<Rightarrow> True | _ \<Rightarrow> False)"

text \<open>A statement of one of the shapes the resolver's type switch names.\<close>

definition recognizedStmt :: "StmtNode \<Rightarrow> bool" where
  "recognizedStmt s = (s \<noteq> OtherStmt)"

text \<open>
  The specification's words, not the code's: a batch is exactly one recognized statement,
  or a \<^verbatim>\<open>use\<close> followed by exactly one other recognized statement.
\<close>

definition batchAsSpecified :: "StmtNode list \<Rightarrow> bool" where
  "batchAsSpecified stmts =
     (case stmts of
        [s] \<Rightarrow> recognizedStmt s
      | [u, s] \<Rightarrow> isUseStmt u \<and> recognizedStmt s
      | _ \<Rightarrow> False)"

subsection \<open>Example inputs\<close>

text \<open>
  A scratch engine that accepts every statement and has empty catalog views, a parser
  that returns no statement, and helpers that quote with backticks. The names of the
  examples are in lower case already.
\<close>

definition exampleEnv :: "unit collaborators" where
  "exampleEnv =
     \<lparr>Parse = (\<lambda>q. Inr []),
      Exec = (\<lambda>e q. (None, e)),
      QueryCols = (\<lambda>e s t. Inr ([], None)),
      QueryUniqKeys = (\<lambda>e s t. Inr ([], None)),
      quoteDB = (\<lambda>s. ''`'' @ s @ ''`''),
      quoteSchema = (\<lambda>s t. ''`'' @ s @ ''`.`'' @ t @ ''`''),
      ToLower = (\<lambda>s. s)\<rparr>"

text \<open>Tables carry their column names as payload.\<close>

definition tblA :: "string list TableInfo" where
  "tblA = \<lparr>ID_tbl = 1, Name_tbl = \<lparr>O_str = ''A'', L_str = ''a''\<rparr>, State_tbl = StatePublic,
           Payload_tbl = [''a'', ''b'']\<rparr>"

definition tblB :: "string list TableInfo" where
  "tblB = \<lparr>ID_tbl = 2, Name_tbl = \<lparr>O_str = ''B'', L_str = ''b''\<rparr>, State_tbl = StatePublic,
           Payload_tbl = [''a'']\<rparr>"

definition dbTest :: "string list DBInfo" where
  "dbTest = \<lparr>ID_db = 10, Name_db = \<lparr>O_str = ''test'', L_str = ''test''\<rparr>,
             Charset = ''utf8mb4'', Collate = ''utf8mb4_bin'', Tables = [tblA, tblB],
             State_db = StatePublic\<rparr>"

definition exampleHandle :: "(unit, string list) DDLHandle" where
  "exampleHandle =
     \<lparr>db = (), tableInfos = Map.empty, historyDDLs = [],
      lastDBInfoMap = [''`test`'' \<mapsto> dbTest], accelerateEnable = True\<rparr>"

text \<open>An event of the given kind and job state on schema \<open>test\<close>.\<close>

definition exampleJob ::
  "ActionType \<Rightarrow> JobState \<Rightarrow> string list HistoryInfo \<Rightarrow> string list Job" where
  "exampleJob action st bi =
     \<lparr>Type = action, SchemaName = ''test'', State_job = st, BinlogInfo = Some bi,
      Query = ''alter table A add column c char(10)''\<rparr>"

text \<open>
  The engine of the example with a table of three columns, the last one generated, and a
  primary key listed after a two-column unique index and a non-unique one.
\<close>

definition exampleTableEnv :: "unit collaborators" where
  "exampleTableEnv =
     exampleEnv\<lparr>
       QueryCols := (\<lambda>e s t.
         Inr ([Inr (''id'', ''''), Inr (''name'', ''''), Inr (''gen'', ''VIRTUAL GENERATED'')],
              None)),
       QueryUniqKeys := (\<lambda>e s t.
         Inr ([Inr (0, ''uk'', 1, ''name''), Inr (1, ''idx'', 1, ''gen''),
               Inr (0, ''PRIMARY'', 1, ''id''), Inr (0, ''uk'', 2, ''id'')],
              None))\<rparr>"

text \<open>The same engine when every column it reports is a generated one.\<close>

definition exampleGeneratedEnv :: "unit collaborators" where
  "exampleGeneratedEnv =
     exampleEnv\<lparr>
       QueryCols := (\<lambda>e s t.
         Inr ([Inr (''g1'', ''STORED GENERATED''), Inr (''g2'', ''VIRTUAL GENERATED'')], None))\<rparr>"

text \<open>
  A parser that reads the two batches below, each a \<^verbatim>\<open>create table\<close> and a
  \<^verbatim>\<open>use\<close> in one order or the other.
\<close>

definition stmtCreateT :: StmtNode where
  "stmtCreateT =
     CreateTableStmt \<lparr>Schema = \<lparr>O_str = [], L_str = []\<rparr>, Name = \<lparr>O_str = ''t'', L_str = ''t''\<rparr>\<rparr>"

definition exampleParserEnv :: "unit collaborators" where
  "exampleParserEnv =
     exampleEnv\<lparr>
       Parse := (\<lambda>q.
         if q = ''create table t (a int); use db'' then Inr [stmtCreateT, UseStmt ''db'']
         else if q = ''use db; create table t (a int)'' then Inr [UseStmt ''db'', stmtCreateT]
         else Inl ''syntax error'')\<rparr>"

text \<open>
  An engine on which the table of the statement is there already, and a handle whose
  cache has an entry for it.
\<close>

definition exampleExistsEnv :: "unit collaborators" where
  "exampleExistsEnv =
     exampleEnv\<lparr>
       Parse := (\<lambda>q. Inr [stmtCreateT]),
       Exec := (\<lambda>e q. (Some ''Table 'test.t' already exists'', e))\<rparr>"

definition exampleCachedHandle :: "(unit, string list) DDLHandle" where
  "exampleCachedHandle =
     exampleHandle\<lparr>
       tableInfos :=
         [''`test`.`t`'' \<mapsto>
            \<lparr>info_schema = ''test'', info_table = ''t'', info_columns = [''a''],
             primaryKey = None, uniqueKeys = []\<rparr>],
       accelerateEnable := False\<rparr>"

text \<open>An engine that answers every other text with a syntax error and leaves the table.\<close>

definition exampleOtherSQL :: otherSQL where
  "exampleOtherSQL =
     \<lparr>otherQuery = (\<lambda>tbl text. (Inl ''You have an error in your SQL syntax'', tbl)),
      otherExec = (\<lambda>tbl text. (Some ''You have an error in your SQL syntax'', tbl))\<rparr>"



section \<open>Properties\<close>

subsection \<open>The accelerator\<close>

lemma levels_disjoint: "a \<in> set tableLevelActions \<Longrightarrow> a \<notin> set schemaLevelActions"
  by (auto simp: tableLevelActions_def schemaLevelActions_def)

lemma substituteTable_None:
  "(substituteTable n ts = None) = (\<forall>t\<in>set ts. ID_tbl t \<noteq> ID_tbl n)"
  by (induction ts) auto

lemma substituteTable_Some:
  "substituteTable n ts = Some ts' \<Longrightarrow>
     \<exists>i<length ts. ID_tbl (ts ! i) = ID_tbl n \<and> (\<forall>j<i. ID_tbl (ts ! j) \<noteq> ID_tbl n) \<and>
        ts' = ts[i := n]"
proof (induction ts arbitrary: ts')
  case Nil
  then show ?case by simp
next
  case (Cons t ts)
  show ?case
  proof (cases "ID_tbl t = ID_tbl n")
    case True
    with Cons.prems have "ts' = (t # ts)[0 := n]" by simp
    with True show ?thesis by (intro exI[of _ 0]) simp
  next
    case False
    with Cons.prems obtain us where us: "substituteTable n ts = Some us" "ts' = t # us"
      by auto
    from Cons.IH[OF us(1)] obtain i where i: "i < length ts" "ID_tbl (ts ! i) = ID_tbl n"
      "\<forall>j<i. ID_tbl (ts ! j) \<noteq> ID_tbl n" "us = ts[i := n]" by blast
    have "\<forall>j<Suc i. ID_tbl ((t # ts) ! j) \<noteq> ID_tbl n"
      using False i(3) by (auto simp: nth_Cons split: nat.splits)
    with i us(2) show ?thesis by (intro exI[of _ "Suc i"]) simp
  qed
qed

text \<open>
  Claim C1. For a table-level event whose table state is public: when the key of the
  event's lower-cased schema name is not in the catalog, the call fails with the
  schema-not-found error and the handle is as before; when it is, and some table of that
  schema has the event's table ID, the first such entry is overwritten where it stands and
  every other table keeps its position; when no table has the ID, the event's table is
  appended at the end of the list.
\<close>

theorem accelerate_public_table:
  assumes "Type job \<in> set tableLevelActions"
    and "BinlogInfo job = Some bi"
    and "TableInfo bi = Some tblInfo"
    and "State_tbl tblInfo = StatePublic"
  shows "case lastDBInfoMap d (quoteDB env (ToLower env (SchemaName job))) of
           None \<Rightarrow>
             AccelerateHistoryDDLs env d job = (Some (ErrSchemaNotFound (SchemaName job)), d)
         | Some v \<Rightarrow>
             ((\<exists>t\<in>set (Tables v). ID_tbl t = ID_tbl tblInfo) \<longrightarrow>
                (\<exists>i<length (Tables v).
                    ID_tbl (Tables v ! i) = ID_tbl tblInfo \<and>
                    (\<forall>j<i. ID_tbl (Tables v ! j) \<noteq> ID_tbl tblInfo) \<and>
                    AccelerateHistoryDDLs env d job =
                      (None, d\<lparr>lastDBInfoMap :=
                         (lastDBInfoMap d)(quoteDB env (ToLower env (SchemaName job)) \<mapsto>
                            v\<lparr>Tables := (Tables v)[i := tblInfo]\<rparr>)\<rparr>))) \<and>
             ((\<forall>t\<in>set (Tables v). ID_tbl t \<noteq> ID_tbl tblInfo) \<longrightarrow>
                AccelerateHistoryDDLs env d job =
                  (None, d\<lparr>lastDBInfoMap :=
                     (lastDBInfoMap d)(quoteDB env (ToLower env (SchemaName job)) \<mapsto>
                        v\<lparr>Tables := Tables v @ [tblInfo]\<rparr>)\<rparr>))"
proof (cases "lastDBInfoMap d (quoteDB env (ToLower env (SchemaName job)))")
  case None
  with assms show ?thesis
    by (simp add: AccelerateHistoryDDLs_def levels_disjoint)
next
  case (Some v)
  show ?thesis
  proof (cases "substituteTable tblInfo (Tables v)")
    case None
    then have "\<forall>t\<in>set (Tables v). ID_tbl t \<noteq> ID_tbl tblInfo"
      by (simp add: substituteTable_None)
    with assms Some None show ?thesis
      by (simp add: AccelerateHistoryDDLs_def levels_disjoint)
  next
    case (Some ts)
    from substituteTable_Some[OF Some] obtain i where i: "i < length (Tables v)"
      "ID_tbl (Tables v ! i) = ID_tbl tblInfo"
      "\<forall>j<i. ID_tbl (Tables v ! j) \<noteq> ID_tbl tblInfo" "ts = (Tables v)[i := tblInfo]"
      by blast
    have ex: "\<exists>t\<in>set (Tables v). ID_tbl t = ID_tbl tblInfo"
      using i(1,2) nth_mem by blast
    have run: "AccelerateHistoryDDLs env d job =
                 (None, d\<lparr>lastDBInfoMap :=
                    (lastDBInfoMap d)(quoteDB env (ToLower env (SchemaName job)) \<mapsto>
                       v\<lparr>Tables := (Tables v)[i := tblInfo]\<rparr>)\<rparr>)"
      using assms \<open>lastDBInfoMap d _ = Some v\<close> Some i(4)
      by (simp add: AccelerateHistoryDDLs_def levels_disjoint)
    show ?thesis
      using \<open>lastDBInfoMap d _ = Some v\<close> ex i run by auto
  qed
qed

theorem accelerate_public_table_witness:
  "Type (exampleJob ActionAddColumn JobStateSynced
           \<lparr>DBInfo = None, TableInfo = Some (tblA\<lparr>Payload_tbl := [''a'', ''b'', ''c'']\<rparr>)\<rparr>)
     \<in> set tableLevelActions \<and>
   State_tbl (tblA\<lparr>Payload_tbl := [''a'', ''b'', ''c'']\<rparr>) = StatePublic \<and>
   lastDBInfoMap exampleHandle (quoteDB exampleEnv (ToLower exampleEnv ''test'')) = Some dbTest \<and>
   AccelerateHistoryDDLs exampleEnv exampleHandle
     (exampleJob ActionAddColumn JobStateSynced
        \<lparr>DBInfo = None, TableInfo = Some (tblA\<lparr>Payload_tbl := [''a'', ''b'', ''c'']\<rparr>)\<rparr>) =
     (None, exampleHandle\<lparr>lastDBInfoMap :=
        [''`test`'' \<mapsto> dbTest\<lparr>Tables := [tblA\<lparr>Payload_tbl := [''a'', ''b'', ''c'']\<rparr>, tblB]\<rparr>]\<rparr>)"
proof -
  let ?t = "tblA\<lparr>Payload_tbl := [''a'', ''b'', ''c'']\<rparr>"
  let ?bi = "\<lparr>DBInfo = None, TableInfo = Some ?t\<rparr>"
  let ?job = "exampleJob ActionAddColumn JobStateSynced ?bi"
  have h1: "Type ?job \<in> set tableLevelActions"
    by (simp add: exampleJob_def tableLevelActions_def)
  have h2: "BinlogInfo ?job = Some ?bi" by (simp add: exampleJob_def)
  have h3: "TableInfo ?bi = Some ?t" by simp
  have h4: "State_tbl ?t = StatePublic" by (simp add: tblA_def)
  have k: "lastDBInfoMap exampleHandle (quoteDB exampleEnv (ToLower exampleEnv ''test'')) = Some dbTest"
    by (simp add: exampleHandle_def exampleEnv_def)
  from accelerate_public_table[OF h1 h2 h3 h4, where d = exampleHandle and env = exampleEnv]
  show ?thesis
    using h1 h4 k
    by (auto simp add: exampleJob_def exampleHandle_def exampleEnv_def dbTest_def tblA_def
        tblB_def less_Suc_eq)
qed

text \<open>
  Claim C3. For an event whose action kind is in neither case list of the switch, the call
  returns the unknown-action error and the handle, with the whole catalog, is as before.
\<close>

theorem accelerate_unknown_action:
  assumes "Type job \<notin> set schemaLevelActions" and "Type job \<notin> set tableLevelActions"
  shows "AccelerateHistoryDDLs env d job = (Some (ErrUnknownDDLAction (Type job)), d)"
  using assms by (simp add: AccelerateHistoryDDLs_def)

theorem accelerate_unknown_action_witness:
  "Type (exampleJob (ActionOther 27) JobStateSynced \<lparr>DBInfo = None, TableInfo = Some tblA\<rparr>)
     \<notin> set schemaLevelActions \<and>
   Type (exampleJob (ActionOther 27) JobStateSynced \<lparr>DBInfo = None, TableInfo = Some tblA\<rparr>)
     \<notin> set tableLevelActions \<and>
   AccelerateHistoryDDLs exampleEnv exampleHandle
     (exampleJob (ActionOther 27) JobStateSynced \<lparr>DBInfo = None, TableInfo = Some tblA\<rparr>) =
     (Some (ErrUnknownDDLAction (ActionOther 27)), exampleHandle)"
proof -
  let ?job = "exampleJob (ActionOther 27) JobStateSynced \<lparr>DBInfo = None, TableInfo = Some tblA\<rparr>"
  have h1: "Type ?job \<notin> set schemaLevelActions"
    by (simp add: exampleJob_def schemaLevelActions_def)
  have h2: "Type ?job \<notin> set tableLevelActions"
    by (simp add: exampleJob_def tableLevelActions_def)
  have "Type ?job = ActionOther 27" by (simp add: exampleJob_def)
  with accelerate_unknown_action[OF h1 h2, where d = exampleHandle and env = exampleEnv] h1 h2
  show ?thesis by simp
qed

text \<open>
  Claim C10. For a schema-level event whose database state is neither public nor absent,
  the call succeeds and leaves the handle as it was; for a table-level event whose table
  state is neither public nor absent, it fails with the unknown-table-state error.
\<close>

theorem accelerate_intermediate_state:
  "(Type job \<in> set schemaLevelActions \<and> BinlogInfo job = Some bi \<and> DBInfo bi = Some dbInfo \<and>
    State_db dbInfo \<noteq> StatePublic \<and> State_db dbInfo \<noteq> StateNone
      \<longrightarrow> AccelerateHistoryDDLs env d job = (None, d)) \<and>
   (Type job \<in> set tableLevelActions \<and> BinlogInfo job = Some bi \<and> TableInfo bi = Some tblInfo \<and>
    State_tbl tblInfo \<noteq> StatePublic \<and> State_tbl tblInfo \<noteq> StateNone
      \<longrightarrow> AccelerateHistoryDDLs env d job = (Some (ErrUnknownTableState (State_tbl tblInfo)), d))"
  by (simp add: AccelerateHistoryDDLs_def levels_disjoint)

theorem accelerate_intermediate_state_witness:
  "AccelerateHistoryDDLs exampleEnv exampleHandle
     (exampleJob ActionCreateSchema JobStateSynced
        \<lparr>DBInfo = Some (dbTest\<lparr>State_db := StateWriteOnly\<rparr>), TableInfo = None\<rparr>) =
     (None, exampleHandle) \<and>
   AccelerateHistoryDDLs exampleEnv exampleHandle
     (exampleJob ActionCreateTable JobStateSynced
        \<lparr>DBInfo = None, TableInfo = Some (tblA\<lparr>State_tbl := StateWriteOnly\<rparr>)\<rparr>) =
     (Some (ErrUnknownTableState StateWriteOnly), exampleHandle)"
proof -
  let ?dbi = "dbTest\<lparr>State_db := StateWriteOnly\<rparr>"
  let ?tbi = "tblA\<lparr>State_tbl := StateWriteOnly\<rparr>"
  let ?bi1 = "\<lparr>DBInfo = Some ?dbi, TableInfo = None\<rparr>"
  let ?bi2 = "\<lparr>DBInfo = None, TableInfo = Some ?tbi\<rparr>"
  have a: "Type (exampleJob ActionCreateSchema JobStateSynced ?bi1) \<in> set schemaLevelActions \<and>
           BinlogInfo (exampleJob ActionCreateSchema JobStateSynced ?bi1) = Some ?bi1 \<and>
           DBInfo ?bi1 = Some ?dbi \<and> State_db ?dbi \<noteq> StatePublic \<and> State_db ?dbi \<noteq> StateNone"
    by (simp add: exampleJob_def schemaLevelActions_def)
  have b: "Type (exampleJob ActionCreateTable JobStateSynced ?bi2) \<in> set tableLevelActions \<and>
           BinlogInfo (exampleJob ActionCreateTable JobStateSynced ?bi2) = Some ?bi2 \<and>
           TableInfo ?bi2 = Some ?tbi \<and> State_tbl ?tbi \<noteq> StatePublic \<and> State_tbl ?tbi \<noteq> StateNone"
    by (simp add: exampleJob_def tableLevelActions_def)
  have c: "State_tbl ?tbi = StateWriteOnly" by simp
  from a b c
    accelerate_intermediate_state[where job = "exampleJob ActionCreateSchema JobStateSynced ?bi1"
      and bi = ?bi1 and dbInfo = ?dbi and env = exampleEnv and d = exampleHandle]
    accelerate_intermediate_state[where job = "exampleJob ActionCreateTable JobStateSynced ?bi2"
      and bi = ?bi2 and tblInfo = ?tbi and env = exampleEnv and d = exampleHandle]
  show ?thesis by metis
qed

subsection \<open>The job filter\<close>

text \<open>
  Claim C8. The filter admits a job exactly when its state is synced or done, and the
  replay of a history is the replay of its admitted jobs: a job in any other state reaches
  neither the accelerator nor the scratch engine.
\<close>

theorem job_filter:
  "(\<not> skipJob job \<longleftrightarrow> State_job job = JobStateSynced \<or> State_job job = JobStateDone) \<and>
   ExecuteHistoryDDLs env d jobs = ExecuteHistoryDDLs env d (filter (\<lambda>j. \<not> skipJob j) jobs)"
proof
  show "\<not> skipJob job \<longleftrightarrow> State_job job = JobStateSynced \<or> State_job job = JobStateDone"
    by (auto simp: skipJob_def IsSynced_def IsDone_def)
  show "ExecuteHistoryDDLs env d jobs = ExecuteHistoryDDLs env d (filter (\<lambda>j. \<not> skipJob j) jobs)"
  proof (induction jobs arbitrary: d)
    case Nil
    show ?case by simp
  next
    case (Cons j js)
    show ?case
      by (cases "skipJob j")
         (auto simp: Cons.IH Let_def split: prod.splits option.splits)
  qed
qed

theorem job_filter_witness:
  "skipJob (exampleJob (ActionOther 27) JobStateCancelled \<lparr>DBInfo = None, TableInfo = None\<rparr>) \<and>
   \<not> skipJob (exampleJob ActionDropTable JobStateDone \<lparr>DBInfo = None, TableInfo = Some tblB\<rparr>) \<and>
   ExecuteHistoryDDLs exampleEnv exampleHandle
     [exampleJob (ActionOther 27) JobStateCancelled \<lparr>DBInfo = None, TableInfo = None\<rparr>,
      exampleJob ActionDropTable JobStateDone \<lparr>DBInfo = None, TableInfo = Some tblB\<rparr>] =
   ExecuteHistoryDDLs exampleEnv exampleHandle
     [exampleJob ActionDropTable JobStateDone \<lparr>DBInfo = None, TableInfo = Some tblB\<rparr>]"
proof -
  let ?c = "exampleJob (ActionOther 27) JobStateCancelled \<lparr>DBInfo = None, TableInfo = None\<rparr>"
  let ?s = "exampleJob ActionDropTable JobStateDone \<lparr>DBInfo = None, TableInfo = Some tblB\<rparr>"
  have s1: "State_job ?c = JobStateCancelled" and s2: "State_job ?s = JobStateDone"
    by (simp_all add: exampleJob_def)
  from job_filter[where job = ?c, THEN conjunct1] s1 have k1: "skipJob ?c" by simp
  from job_filter[where job = ?s, THEN conjunct1] s2 have k2: "\<not> skipJob ?s" by simp
  from job_filter[where env = exampleEnv and d = exampleHandle and jobs = "[?c, ?s]",
      THEN conjunct2] k1 k2
  show ?thesis by simp
qed

subsection \<open>Deriving a table's structure\<close>

text \<open>\<open>strings_Contains\<close> is the substring test.\<close>

lemma take_eq_prefix: "(take (length ys) xs = ys) = (\<exists>q. xs = ys @ q)"
proof
  assume "take (length ys) xs = ys"
  then have "xs = ys @ drop (length ys) xs" by (metis append_take_drop_id)
  then show "\<exists>q. xs = ys @ q" ..
next
  assume "\<exists>q. xs = ys @ q"
  then show "take (length ys) xs = ys" by auto
qed

lemma strings_Contains_iff: "strings_Contains s substr = (\<exists>p q. s = p @ substr @ q)"
proof (induction s)
  case Nil
  show ?case by auto
next
  case (Cons c s)
  have "(\<exists>p q. c # s = p @ substr @ q) =
        ((\<exists>q. c # s = substr @ q) \<or> (\<exists>p q. s = p @ substr @ q))"
  proof
    assume "\<exists>p q. c # s = p @ substr @ q"
    then obtain p q where pq: "c # s = p @ substr @ q" by blast
    show "(\<exists>q. c # s = substr @ q) \<or> (\<exists>p q. s = p @ substr @ q)"
    proof (cases p)
      case Nil
      with pq show ?thesis by auto
    next
      case (Cons a p')
      with pq have "s = p' @ substr @ q" by simp
      then show ?thesis by blast
    qed
  next
    assume "(\<exists>q. c # s = substr @ q) \<or> (\<exists>p q. s = p @ substr @ q)"
    then show "\<exists>p q. c # s = p @ substr @ q"
    proof
      assume "\<exists>q. c # s = substr @ q"
      then obtain q where "c # s = [] @ substr @ q" by auto
      then show ?thesis by blast
    next
      assume "\<exists>p q. s = p @ substr @ q"
      then obtain p q where "c # s = (c # p) @ substr @ q" by auto
      then show ?thesis by blast
    qed
  qed
  then show ?case
    using Cons.IH by (simp only: strings_Contains.simps take_eq_prefix)
qed

lemma colsLoop_rows:
  "colsLoop (map Inr rows) cols =
     Inr (cols @ map fst (filter (\<lambda>r. \<not> isGenerated (snd r)) rows))"
  by (induction rows arbitrary: cols) (auto split: prod.splits)

text \<open>
  Claim C5. When the columns view answers with rows that all scan and reports no error,
  the derived column list is, in the view's order, the names of exactly the rows whose
  extra text contains neither \<^verbatim>\<open>VIRTUAL GENERATED\<close> nor \<^verbatim>\<open>STORED GENERATED\<close>; when
  that list is empty the derivation fails with the table-not-exist error and returns no
  list.
\<close>

theorem getColsOfTbl_columns:
  assumes "QueryCols env e schema table = Inr (map Inr rows, None)"
  shows "getColsOfTbl env e schema table =
           (if map fst (filter (\<lambda>r. \<not> isGenerated (snd r)) rows) = [] then Inl ErrTableNotExist
            else Inr (map fst (filter (\<lambda>r. \<not> isGenerated (snd r)) rows))) \<and>
         (\<forall>extra. isGenerated extra =
            ((\<exists>p q. extra = p @ ''VIRTUAL GENERATED'' @ q) \<or>
             (\<exists>p q. extra = p @ ''STORED GENERATED'' @ q)))"
proof
  show "getColsOfTbl env e schema table =
           (if map fst (filter (\<lambda>r. \<not> isGenerated (snd r)) rows) = [] then Inl ErrTableNotExist
            else Inr (map fst (filter (\<lambda>r. \<not> isGenerated (snd r)) rows)))"
    using assms by (simp add: getColsOfTbl_def colsLoop_rows)
  show "\<forall>extra. isGenerated extra =
            ((\<exists>p q. extra = p @ ''VIRTUAL GENERATED'' @ q) \<or>
             (\<exists>p q. extra = p @ ''STORED GENERATED'' @ q))"
    by (simp only: isGenerated_def strings_Contains_iff) simp
qed

lemma isGenerated_examples:
  "\<not> isGenerated ''''" "isGenerated ''VIRTUAL GENERATED''" "isGenerated ''STORED GENERATED''"
  by (simp_all add: isGenerated_def)

theorem getColsOfTbl_columns_witness:
  "QueryCols exampleTableEnv () ''db'' ''t'' =
     Inr (map Inr [(''id'', ''''), (''name'', ''''), (''gen'', ''VIRTUAL GENERATED'')], None) \<and>
   getColsOfTbl exampleTableEnv () ''db'' ''t'' = Inr [''id'', ''name''] \<and>
   QueryCols exampleGeneratedEnv () ''db'' ''t'' =
     Inr (map Inr [(''g1'', ''STORED GENERATED''), (''g2'', ''VIRTUAL GENERATED'')], None) \<and>
   getColsOfTbl exampleGeneratedEnv () ''db'' ''t'' = Inl ErrTableNotExist"
proof -
  have q1: "QueryCols exampleTableEnv () ''db'' ''t'' =
              Inr (map Inr [(''id'', ''''), (''name'', ''''), (''gen'', ''VIRTUAL GENERATED'')], None)"
    by (simp add: exampleTableEnv_def)
  have q2: "QueryCols exampleGeneratedEnv () ''db'' ''t'' =
              Inr (map Inr [(''g1'', ''STORED GENERATED''), (''g2'', ''VIRTUAL GENERATED'')], None)"
    by (simp add: exampleGeneratedEnv_def)
  from getColsOfTbl_columns[OF q1, THEN conjunct1] getColsOfTbl_columns[OF q2, THEN conjunct1]
  have "getColsOfTbl exampleTableEnv () ''db'' ''t'' = Inr [''id'', ''name''] \<and>
        getColsOfTbl exampleGeneratedEnv () ''db'' ''t'' = Inl ErrTableNotExist"
    by (simp add: isGenerated_examples)
  with q1 q2 show ?thesis by (simp only: simp_thms)
qed

text \<open>The unique keys the engine's rows are grouped into have pairwise different names.\<close>

lemma appendColumn_names:
  "appendColumn keyName columnName uks = Some uks' \<Longrightarrow> map name uks' = map name uks"
  by (induction uks arbitrary: uks') (auto split: if_splits)

lemma appendColumn_None:
  "(appendColumn keyName columnName uks = None) = (keyName \<notin> set (map name uks))"
  by (induction uks) auto

lemma uniqKeysLoop_distinct:
  "uniqKeysLoop rows uks = Inr uks' \<Longrightarrow> distinct (map name uks) \<Longrightarrow> distinct (map name uks')"
proof (induction rows uks rule: uniqKeysLoop.induct)
  case (1 uks)
  then show ?case by simp
next
  case (2 msg rows uks)
  then show ?case by simp
next
  case (3 nonUnique keyName seqInIndex columnName rows uks)
  show ?case
  proof (cases "nonUnique = 1")
    case True
    with 3 show ?thesis by simp
  next
    case False
    show ?thesis
    proof (cases "appendColumn keyName columnName uks")
      case None
      then have "keyName \<notin> set (map name uks)" by (simp add: appendColumn_None)
      with "3.prems"(2)
      have dist: "distinct (map name (uks @ [\<lparr>name = keyName, columns = [columnName]\<rparr>]))"
        by auto
      from "3.prems"(1) False None
      have run: "uniqKeysLoop rows (uks @ [\<lparr>name = keyName, columns = [columnName]\<rparr>]) = Inr uks'"
        by simp
      from False None run dist show ?thesis by (rule "3.IH"(2))
    next
      case (Some us)
      then have "map name us = map name uks" by (rule appendColumn_names)
      with "3.prems"(2) have dist: "distinct (map name us)" by simp
      from "3.prems"(1) False Some have run: "uniqKeysLoop rows us = Inr uks'" by simp
      from False Some run dist show ?thesis by (rule "3.IH"(3))
    qed
  qed
qed

lemma getUniqKeys_distinct:
  "getUniqKeys env e schema table = Inr uks \<Longrightarrow> distinct (map name uks)"
  by (auto simp: getUniqKeys_def split: sum.splits prod.splits option.splits
      dest: uniqKeysLoop_distinct)

declare primaryKeyLoop.simps [simp del]

lemma primaryKeyLoop_none:
  "\<forall>j. i \<le> j \<and> j < length (uniqueKeys info) \<longrightarrow> name (uniqueKeys info ! j) \<noteq> ''PRIMARY''
     \<Longrightarrow> primaryKeyLoop i info = info"
proof (induction i info rule: primaryKeyLoop.induct)
  case (1 i info)
  show ?case
  proof (cases "i < length (uniqueKeys info)")
    case True
    with "1.prems" have ne: "name (uniqueKeys info ! i) \<noteq> ''PRIMARY''" by simp
    from "1.prems" have "\<forall>j. i + 1 \<le> j \<and> j < length (uniqueKeys info) \<longrightarrow>
                              name (uniqueKeys info ! j) \<noteq> ''PRIMARY''" by simp
    with "1.IH"[OF True ne] have "primaryKeyLoop (i + 1) info = info" by blast
    with True ne show ?thesis by (subst primaryKeyLoop.simps) simp
  next
    case False
    then show ?thesis by (subst primaryKeyLoop.simps) simp
  qed
qed

lemma primaryKeyLoop_found:
  "i \<le> k \<Longrightarrow> k < length (uniqueKeys info) \<Longrightarrow> name (uniqueKeys info ! k) = ''PRIMARY'' \<Longrightarrow>
   \<forall>j. i \<le> j \<and> j < k \<longrightarrow> name (uniqueKeys info ! j) \<noteq> ''PRIMARY'' \<Longrightarrow>
   primaryKeyLoop i info =
     info\<lparr>uniqueKeys := (uniqueKeys info)[k := uniqueKeys info ! 0, 0 := uniqueKeys info ! k],
          primaryKey := Some 0\<rparr>"
proof (induction i info rule: primaryKeyLoop.induct)
  case (1 i info)
  from "1.prems" have in_range: "i < length (uniqueKeys info)" by simp
  show ?case
  proof (cases "i = k")
    case True
    with "1.prems" in_range show ?thesis by (subst primaryKeyLoop.simps) simp
  next
    case False
    with "1.prems" have lt: "i < k" by simp
    with "1.prems" have ne: "name (uniqueKeys info ! i) \<noteq> ''PRIMARY''" by simp
    have "primaryKeyLoop (i + 1) info =
            info\<lparr>uniqueKeys := (uniqueKeys info)[k := uniqueKeys info ! 0, 0 := uniqueKeys info ! k],
                 primaryKey := Some 0\<rparr>"
      using "1.IH"[OF in_range ne] lt "1.prems" by simp
    with in_range ne show ?thesis by (subst primaryKeyLoop.simps) simp
  qed
qed

lemma first_primary:
  assumes "\<exists>u\<in>set uks. name u = ''PRIMARY''"
  obtains k where "k < length uks" "name (uks ! k) = ''PRIMARY''"
    "\<forall>j<k. name (uks ! j) \<noteq> ''PRIMARY''"
proof -
  from assms obtain n where n: "n < length uks \<and> name (uks ! n) = ''PRIMARY''"
    by (auto simp: in_set_conv_nth)
  define k where "k = (LEAST n. n < length uks \<and> name (uks ! n) = ''PRIMARY'')"
  have a: "k < length uks \<and> name (uks ! k) = ''PRIMARY''"
    unfolding k_def using n by (rule LeastI)
  have b: "\<forall>j<k. name (uks ! j) \<noteq> ''PRIMARY''"
  proof (intro allI impI)
    fix j assume "j < k"
    then have "\<not> (j < length uks \<and> name (uks ! j) = ''PRIMARY'')"
      unfolding k_def by (rule not_less_Least)
    with \<open>j < k\<close> a show "name (uks ! j) \<noteq> ''PRIMARY''" by simp
  qed
  from a b that show thesis by blast
qed

lemma primaryKeyLoop_result:
  assumes "primaryKey info = None" and "distinct (map name (uniqueKeys info))"
  shows "(if \<exists>u\<in>set (uniqueKeys info). name u = ''PRIMARY''
          then primaryKey (primaryKeyLoop 0 info) = Some 0 \<and>
               uniqueKeys (primaryKeyLoop 0 info) \<noteq> [] \<and>
               name (uniqueKeys (primaryKeyLoop 0 info) ! 0) = ''PRIMARY'' \<and>
               (\<forall>u\<in>set (uniqueKeys info).
                   name u = ''PRIMARY'' \<longrightarrow> uniqueKeys (primaryKeyLoop 0 info) ! 0 = u)
          else primaryKey (primaryKeyLoop 0 info) = None \<and>
               uniqueKeys (primaryKeyLoop 0 info) = uniqueKeys info) \<and>
         set (uniqueKeys (primaryKeyLoop 0 info)) = set (uniqueKeys info) \<and>
         length (uniqueKeys (primaryKeyLoop 0 info)) = length (uniqueKeys info)"
proof (cases "\<exists>u\<in>set (uniqueKeys info). name u = ''PRIMARY''")
  case False
  then have "\<forall>j. 0 \<le> j \<and> j < length (uniqueKeys info) \<longrightarrow>
                 name (uniqueKeys info ! j) \<noteq> ''PRIMARY''" by auto
  then have "primaryKeyLoop 0 info = info" by (rule primaryKeyLoop_none)
  with False assms(1) show ?thesis by simp
next
  case True
  let ?uks = "uniqueKeys info"
  from True obtain k where k: "k < length ?uks" "name (?uks ! k) = ''PRIMARY''"
    "\<forall>j<k. name (?uks ! j) \<noteq> ''PRIMARY''" by (rule first_primary)
  have run: "primaryKeyLoop 0 info =
               info\<lparr>uniqueKeys := ?uks[k := ?uks ! 0, 0 := ?uks ! k], primaryKey := Some 0\<rparr>"
    using k by (intro primaryKeyLoop_found) auto
  have pos: "0 < length ?uks" using k(1) by (cases k) auto
  have zero: "?uks[k := ?uks ! 0, 0 := ?uks ! k] ! 0 = ?uks ! k" using pos by simp
  have only: "u = ?uks ! k" if "u \<in> set ?uks" "name u = ''PRIMARY''" for u
  proof -
    from that(1) obtain n where n: "n < length ?uks" "u = ?uks ! n"
      by (auto simp: in_set_conv_nth)
    with that(2) k(1,2) have "map name ?uks ! n = map name ?uks ! k" by simp
    with assms(2) n(1) k(1) have "n = k" by (metis nth_eq_iff_index_eq length_map)
    with n(2) show ?thesis by simp
  qed
  have perm: "set (?uks[k := ?uks ! 0, 0 := ?uks ! k]) = set ?uks"
    using k(1) pos by (rule set_swap)
  show ?thesis
    using True run zero k(2) pos only perm by auto
qed

text \<open>
  Claim C4. Whenever a table's structure is derived: if one of the unique indexes read
  from the engine is named \<^verbatim>\<open>PRIMARY\<close>, that index stands at position 0 of
  \<open>uniqueKeys\<close> and \<open>primaryKey\<close> points to position 0; if none is, \<open>primaryKey\<close> is
  absent and the list is as read. The loop only exchanges two entries. So \<open>primaryKey\<close>,
  when present, is \<open>uniqueKeys[0]\<close>.
\<close>

theorem getTableInfo_primaryKey:
  assumes "getTableInfo env e schema table = Inr info"
  shows "\<exists>uks. getUniqKeys env e schema table = Inr uks \<and>
           (if \<exists>u\<in>set uks. name u = ''PRIMARY''
            then primaryKey info = Some 0 \<and> uniqueKeys info \<noteq> [] \<and>
                 name (uniqueKeys info ! 0) = ''PRIMARY'' \<and>
                 (\<forall>u\<in>set uks. name u = ''PRIMARY'' \<longrightarrow> uniqueKeys info ! 0 = u)
            else primaryKey info = None \<and> uniqueKeys info = uks) \<and>
           set (uniqueKeys info) = set uks \<and> length (uniqueKeys info) = length uks \<and>
           (\<forall>i. primaryKey info = Some i \<longrightarrow>
                  i = 0 \<and> primaryKey_deref info = Some (uniqueKeys info ! 0))"
proof -
  from assms obtain cols uks where
    uks: "getUniqKeys env e schema table = Inr uks" and
    info: "info = primaryKeyLoop 0
             \<lparr>info_schema = schema, info_table = table, info_columns = cols,
              primaryKey = None, uniqueKeys = uks\<rparr>"
    by (auto simp: getTableInfo_def split: sum.splits)
  let ?start = "\<lparr>info_schema = schema, info_table = table, info_columns = cols,
                 primaryKey = None, uniqueKeys = uks\<rparr>"
  have d: "distinct (map name (uniqueKeys ?start))"
    using getUniqKeys_distinct[OF uks] by simp
  have n: "primaryKey ?start = None" by simp
  note r = primaryKeyLoop_result[OF n d]
  have main: "(if \<exists>u\<in>set uks. name u = ''PRIMARY''
            then primaryKey info = Some 0 \<and> uniqueKeys info \<noteq> [] \<and>
                 name (uniqueKeys info ! 0) = ''PRIMARY'' \<and>
                 (\<forall>u\<in>set uks. name u = ''PRIMARY'' \<longrightarrow> uniqueKeys info ! 0 = u)
            else primaryKey info = None \<and> uniqueKeys info = uks) \<and>
           set (uniqueKeys info) = set uks \<and> length (uniqueKeys info) = length uks"
    using r unfolding info by simp
  have ptr: "\<forall>i. primaryKey info = Some i \<longrightarrow>
                  i = 0 \<and> primaryKey_deref info = Some (uniqueKeys info ! 0)"
  proof (intro allI impI)
    fix i assume i: "primaryKey info = Some i"
    with main have z: "i = 0" and ne: "uniqueKeys info \<noteq> []"
      by (auto split: if_splits)
    from ne have "0 < length (uniqueKeys info)" by simp
    with i z show "i = 0 \<and> primaryKey_deref info = Some (uniqueKeys info ! 0)"
      by (simp add: primaryKey_deref_def)
  qed
  from uks main ptr show ?thesis by blast
qed

theorem getTableInfo_primaryKey_witness:
  "getUniqKeys exampleTableEnv () ''db'' ''t'' =
     Inr [\<lparr>name = ''uk'', columns = [''name'', ''id'']\<rparr>, \<lparr>name = ''PRIMARY'', columns = [''id'']\<rparr>] \<and>
   getTableInfo exampleTableEnv () ''db'' ''t'' =
     Inr \<lparr>info_schema = ''db'', info_table = ''t'', info_columns = [''id'', ''name''],
          primaryKey = Some 0,
          uniqueKeys = [\<lparr>name = ''PRIMARY'', columns = [''id'']\<rparr>,
                        \<lparr>name = ''uk'', columns = [''name'', ''id'']\<rparr>]\<rparr> \<and>
   primaryKey_deref
     \<lparr>info_schema = ''db'', info_table = ''t'', info_columns = [''id'', ''name''],
      primaryKey = Some 0,
      uniqueKeys = [\<lparr>name = ''PRIMARY'', columns = [''id'']\<rparr>,
                    \<lparr>name = ''uk'', columns = [''name'', ''id'']\<rparr>]\<rparr> =
     Some \<lparr>name = ''PRIMARY'', columns = [''id'']\<rparr>"
proof -
  let ?info = "\<lparr>info_schema = ''db'', info_table = ''t'', info_columns = [''id'', ''name''],
      primaryKey = Some 0,
      uniqueKeys = [\<lparr>name = ''PRIMARY'', columns = [''id'']\<rparr>,
                    \<lparr>name = ''uk'', columns = [''name'', ''id'']\<rparr>]\<rparr>"
  have uk: "getUniqKeys exampleTableEnv () ''db'' ''t'' =
     Inr [\<lparr>name = ''uk'', columns = [''name'', ''id'']\<rparr>, \<lparr>name = ''PRIMARY'', columns = [''id'']\<rparr>]"
    by (simp add: getUniqKeys_def exampleTableEnv_def exampleEnv_def)
  have cols: "getColsOfTbl exampleTableEnv () ''db'' ''t'' = Inr [''id'', ''name'']"
    by (simp add: getColsOfTbl_def exampleTableEnv_def exampleEnv_def isGenerated_def)
  have run: "getTableInfo exampleTableEnv () ''db'' ''t'' = Inr ?info"
    by (simp add: getTableInfo_def uk cols primaryKeyLoop.simps)
  from getTableInfo_primaryKey[OF run]
  have "\<forall>i. primaryKey ?info = Some i \<longrightarrow>
            i = 0 \<and> primaryKey_deref ?info = Some (uniqueKeys ?info ! 0)"
    by blast
  then have "primaryKey_deref ?info = Some (uniqueKeys ?info ! 0)" by simp
  with uk run show ?thesis by simp
qed

subsection \<open>The resolver\<close>

lemma stmtsLoop_Inr:
  "stmtsLoop ddlQuery stmts schema table haveUseStmt = Inr (schema', table', haveUseStmt') \<Longrightarrow>
     OtherStmt \<notin> set stmts \<and> haveUseStmt' = (haveUseStmt \<or> list_ex isUseStmt stmts)"
  by (induction ddlQuery stmts schema table haveUseStmt rule: stmtsLoop.induct)
     (auto simp: isUseStmt_def)

text \<open>
  Claim C6, as the code has it. The resolution succeeds only when the batch parses to
  statements of recognized shapes that are exactly one statement, not a \<^verbatim>\<open>use\<close>, or
  exactly two statements of which at least one is a \<^verbatim>\<open>use\<close>, in either position.
  Every other count is an error: the count must be two when the batch has a \<^verbatim>\<open>use\<close>
  and one when it has none, so a batch of no statement or of more than two always fails.
\<close>

theorem resolver_batch_size:
  "(parserSchemaTableFromDDL env ddlQuery = Inr (schema, table) \<longrightarrow>
      (\<exists>stmts. Parse env ddlQuery = Inr stmts \<and> list_all recognizedStmt stmts \<and>
         ((length stmts = 1 \<and> \<not> list_ex isUseStmt stmts) \<or>
          (length stmts = 2 \<and> list_ex isUseStmt stmts)))) \<and>
   (Parse env ddlQuery = Inr stmts \<and>
    length stmts \<noteq> (if list_ex isUseStmt stmts then 2 else 1) \<longrightarrow>
      (\<exists>err. parserSchemaTableFromDDL env ddlQuery = Inl err))"
proof (intro conjI impI)
  assume ok: "parserSchemaTableFromDDL env ddlQuery = Inr (schema, table)"
  then obtain ss where ss: "Parse env ddlQuery = Inr ss"
    by (auto simp: parserSchemaTableFromDDL_def split: sum.splits)
  with ok obtain h where loop: "stmtsLoop ddlQuery ss [] [] False = Inr (schema, table, h)"
    and size: "if h then length ss = 2 else length ss = 1"
    by (auto simp: parserSchemaTableFromDDL_def split: sum.splits if_splits)
  from stmtsLoop_Inr[OF loop] have "OtherStmt \<notin> set ss" and h: "h = list_ex isUseStmt ss"
    by simp_all
  then have "list_all recognizedStmt ss"
    by (auto simp: list_all_iff recognizedStmt_def)
  with ss size h
  show "\<exists>stmts. Parse env ddlQuery = Inr stmts \<and> list_all recognizedStmt stmts \<and>
         ((length stmts = 1 \<and> \<not> list_ex isUseStmt stmts) \<or>
          (length stmts = 2 \<and> list_ex isUseStmt stmts))"
    by (cases h) auto
next
  assume a: "Parse env ddlQuery = Inr stmts \<and>
             length stmts \<noteq> (if list_ex isUseStmt stmts then 2 else 1)"
  show "\<exists>err. parserSchemaTableFromDDL env ddlQuery = Inl err"
  proof (cases "stmtsLoop ddlQuery stmts [] [] False")
    case (Inl err)
    with a show ?thesis by (simp add: parserSchemaTableFromDDL_def)
  next
    case (Inr r)
    obtain s t h where r: "r = (s, t, h)" by (cases r)
    from stmtsLoop_Inr[OF Inr[unfolded r]] have "h = list_ex isUseStmt stmts" by simp
    with a Inr r show ?thesis by (auto simp: parserSchemaTableFromDDL_def)
  qed
qed

theorem resolver_batch_size_witness:
  "Parse exampleParserEnv ''use db; create table t (a int)'' = Inr [UseStmt ''db'', stmtCreateT] \<and>
   parserSchemaTableFromDDL exampleParserEnv ''use db; create table t (a int)'' = Inr (''db'', ''t'') \<and>
   list_ex isUseStmt [UseStmt ''db'', stmtCreateT] \<and>
   Parse exampleEnv ''select 1'' = Inr [] \<and>
   parserSchemaTableFromDDL exampleEnv ''select 1'' = Inl (ErrInvalidDDL ''select 1'')"
proof -
  have p: "Parse exampleParserEnv ''use db; create table t (a int)'' = Inr [UseStmt ''db'', stmtCreateT]"
    by (simp add: exampleParserEnv_def)
  have r: "parserSchemaTableFromDDL exampleParserEnv ''use db; create table t (a int)'' =
             Inr (''db'', ''t'')"
    by (simp add: parserSchemaTableFromDDL_def p stmtCreateT_def ofTableName_def)
  have u: "list_ex isUseStmt [UseStmt ''db'', stmtCreateT]" by (simp add: isUseStmt_def)
  have e: "Parse exampleEnv ''select 1'' = Inr []" by (simp add: exampleEnv_def)
  from resolver_batch_size[where env = exampleEnv and ddlQuery = "''select 1''" and stmts = "[]",
      THEN conjunct2] e
  obtain err where err: "parserSchemaTableFromDDL exampleEnv ''select 1'' = Inl err" by auto
  then have "err = ErrInvalidDDL ''select 1''"
    by (simp add: parserSchemaTableFromDDL_def e)
  with err r p u e
    resolver_batch_size[where env = exampleParserEnv
      and ddlQuery = "''use db; create table t (a int)''" and schema = "''db''" and table = "''t''",
      THEN conjunct1]
  show ?thesis by simp
qed

text \<open>
  Claim C6 as stated asks for the \<^verbatim>\<open>use\<close> to come first. The resolver counts the
  statements and does not look at their order: a \<^verbatim>\<open>create table\<close> followed by a
  \<^verbatim>\<open>use\<close> resolves, to the schema of the \<^verbatim>\<open>use\<close>.
\<close>

theorem resolver_batch_counterexample:
  "Parse exampleParserEnv ''create table t (a int); use db'' = Inr [stmtCreateT, UseStmt ''db''] \<and>
   parserSchemaTableFromDDL exampleParserEnv ''create table t (a int); use db'' =
     Inr (''db'', ''t'') \<and>
   \<not> batchAsSpecified [stmtCreateT, UseStmt ''db'']"
  by (simp add: parserSchemaTableFromDDL_def exampleParserEnv_def stmtCreateT_def ofTableName_def
      batchAsSpecified_def isUseStmt_def)

subsection \<open>Executing a statement\<close>

text \<open>
  Claim C9. With an empty statement text \<open>ExecuteDDL\<close> returns success at once, whatever
  the schema hint: the result does not depend on the parser or the engine, and the handle
  (engine state, cache and catalog) is as before.
\<close>

theorem ExecuteDDL_empty: "ExecuteDDL env d schemaHint [] = Some (None, d)"
  by (subst ExecuteDDL.simps) simp

theorem ExecuteDDL_empty_witness:
  "ExecuteDDL exampleExistsEnv exampleCachedHandle ''test'' [] = Some (None, exampleCachedHandle)"
  by (rule ExecuteDDL_empty)






subsection \<open>The key interval mapper\<close>

text \<open>The engine reads the text built from plain keys as the statement over those keys.\<close>

lemma stripPrefix_append: "stripPrefix p (p @ r) = Some r"
  by (simp add: stripPrefix_def)

lemma plainKey_no_quote: "plainKey key \<Longrightarrow> CHR 0x27 \<notin> set key"
  by (auto simp: plainKey_def plainChar_def list_all_iff)

lemma takeWhile_upto: "q \<notin> set k \<Longrightarrow> takeWhile (\<lambda>c. c \<noteq> q) (k @ q # xs) = k"
  by (induction k) auto

lemma dropWhile_upto: "q \<notin> set k \<Longrightarrow> dropWhile (\<lambda>c. c \<noteq> q) (k @ q # xs) = q # xs"
  by (induction k) auto

lemma keyOfSelect_selectText:
  assumes "plainKey key"
  shows "keyOfSelect (useIntervalDB @ selectText key) = Some key"
proof -
  have "useIntervalDB @ selectText key = (useIntervalDB @ selectHead) @ (key @ [CHR 0x27])"
    by (simp add: selectText_def)
  then have "stripPrefix (useIntervalDB @ selectHead) (useIntervalDB @ selectText key) =
               Some (key @ [CHR 0x27])"
    by (simp only: stripPrefix_append)
  with assms show ?thesis by (simp add: keyOfSelect_def)
qed

lemma keysOfInsert_insertText:
  assumes "plainKey curKey" and "plainKey srcKey"
  shows "keysOfInsert (insertText curKey srcKey) = Some (curKey, srcKey)"
proof -
  let ?q = "CHR 0x27"
  let ?r = "curKey @ insertSep @ srcKey @ insertTail"
  let ?r' = "srcKey @ insertTail"
  from assms have nq: "?q \<notin> set curKey" "?q \<notin> set srcKey"
    by (simp_all add: plainKey_no_quote)
  have h: "stripPrefix insertHead (insertText curKey srcKey) = Some ?r"
    unfolding insertText_def by (rule stripPrefix_append)
  have "\<exists>xs. insertSep @ ?r' = ?q # xs" by (simp add: insertSep_def)
  then obtain xs where sep: "insertSep @ ?r' = ?q # xs" ..
  have tail: "insertTail = ?q # '')''" by (simp add: insertTail_def)
  have t1: "takeWhile (\<lambda>c. c \<noteq> ?q) ?r = curKey"
    unfolding sep using nq(1) by (rule takeWhile_upto)
  have d1: "dropWhile (\<lambda>c. c \<noteq> ?q) ?r = insertSep @ ?r'"
    unfolding sep using nq(1) by (rule dropWhile_upto)
  have s: "stripPrefix insertSep (dropWhile (\<lambda>c. c \<noteq> ?q) ?r) = Some ?r'"
    unfolding d1 by (rule stripPrefix_append)
  have t2: "takeWhile (\<lambda>c. c \<noteq> ?q) ?r' = srcKey"
    using takeWhile_upto[OF nq(2), of "'')''"] by (simp only: tail)
  have d2: "dropWhile (\<lambda>c. c \<noteq> ?q) ?r' = insertTail"
    using dropWhile_upto[OF nq(2), of "'')''"] by (simp only: tail)
  show ?thesis
    unfolding keysOfInsert_def h using assms by (simp add: s t1 t2 d2)
qed

lemma fetch_plain:
  "plainKey key \<Longrightarrow>
     fetchMapKeyFromDB eng (Some rows) key =
       ((case filter (\<lambda>r. fst r = key) rows of [] \<Rightarrow> Inr [] | r # rs \<Rightarrow> Inr (snd r)),
        Some rows)"
  by (simp add: fetchMapKeyFromDB_def dbQuery_def keyOfSelect_selectText selectSrcKey_def
      split: list.splits)

lemma fetch_unmapped:
  assumes "plainKey key" and "key \<notin> fst ` set rows"
  shows "fetchMapKeyFromDB eng (Some rows) key = (Inr [], Some rows)"
proof -
  from assms(2) have "filter (\<lambda>r. fst r = key) rows = []"
    by (auto simp: filter_empty_conv)
  with assms(1) show ?thesis by (simp add: fetch_plain)
qed

lemma fetch_append_new:
  assumes "plainKey key" and "key \<notin> fst ` set rows"
  shows "fetchMapKeyFromDB eng (Some (rows @ [(key, src)] @ tl0)) key =
           (Inr src, Some (rows @ [(key, src)] @ tl0))"
proof -
  from assms(2) have "filter (\<lambda>r. fst r = key) rows = []"
    by (auto simp: filter_empty_conv)
  with assms(1) show ?thesis by (simp add: fetch_plain)
qed

lemma insert_plain:
  assumes "plainKey newKey" and "plainKey oldKey"
    and "fetchMapKeyFromDB eng (Some rows) oldKey = (Inr s, Some rows)" and "plainKey s"
  shows "insertMapKeyFromDB eng (Some rows) newKey oldKey =
           (if newKey \<in> fst ` set rows
            then (Some (ErrExternal ''Duplicate entry for key curKey''), Some rows)
            else (None, Some (rows @ [(newKey, if s \<noteq> [] then s else oldKey)])))"
  using assms
  by (simp add: insertMapKeyFromDB_def dbExec_def keysOfInsert_insertText insertRow_def)

lemma plainKey_Nil: "plainKey []"
  by (simp add: plainKey_def)

text \<open>
  Claim C2, as the code has it. For plain keys, from a table with no mapping for \<open>K0\<close>,
  \<open>K1\<close> or \<open>K2\<close>, after \<open>insert(K1, K0)\<close> and \<open>insert(K2, K1)\<close> the fetch of \<open>K2\<close>
  returns \<open>K0\<close>: the second insert finds the mapping of \<open>K1\<close> and stores \<open>K2\<close> against
  its target. Only when \<open>K0\<close> is the empty string, which the fetch also returns for a
  key without a mapping, is \<open>K2\<close> stored against \<open>K1\<close> (for \<open>K2\<close> other than \<open>K1\<close>).
  This holds whatever the engine does with other texts.
\<close>

theorem mapper_two_inserts:
  assumes "plainKey K0" and "plainKey K1" and "plainKey K2"
    and "K0 \<notin> fst ` set rows" and "K1 \<notin> fst ` set rows" and "K2 \<notin> fst ` set rows"
  shows "fst (fetchMapKeyFromDB eng
                (snd (insertMapKeyFromDB eng
                        (snd (insertMapKeyFromDB eng (Some rows) K1 K0)) K2 K1)) K2) =
         Inr (if K0 = [] \<and> K1 \<noteq> K2 then K1 else K0)"
proof -
  have f0: "fetchMapKeyFromDB eng (Some rows) K0 = (Inr [], Some rows)"
    using assms(1,4) by (rule fetch_unmapped)
  have first: "insertMapKeyFromDB eng (Some rows) K1 K0 = (None, Some (rows @ [(K1, K0)]))"
    using insert_plain[OF assms(2,1) f0 plainKey_Nil] assms(5) by simp
  have f1: "fetchMapKeyFromDB eng (Some (rows @ [(K1, K0)])) K1 =
              (Inr K0, Some (rows @ [(K1, K0)]))"
    using fetch_append_new[OF assms(2,5), of eng K0 "[]"] by simp
  note second = insert_plain[OF assms(3,2) f1 assms(1)]
  show ?thesis
  proof (cases "K2 = K1")
    case True
    with second have "snd (insertMapKeyFromDB eng (Some (rows @ [(K1, K0)])) K2 K1) =
                        Some (rows @ [(K1, K0)])" by simp
    with first f1 True show ?thesis by simp
  next
    case False
    with assms(6) have new: "K2 \<notin> fst ` set (rows @ [(K1, K0)])" by simp
    with second have s: "insertMapKeyFromDB eng (Some (rows @ [(K1, K0)])) K2 K1 =
        (None, Some ((rows @ [(K1, K0)]) @ [(K2, if K0 \<noteq> [] then K0 else K1)] @ []))"
      by simp
    have "fetchMapKeyFromDB eng
            (Some ((rows @ [(K1, K0)]) @ [(K2, if K0 \<noteq> [] then K0 else K1)] @ [])) K2 =
          (Inr (if K0 \<noteq> [] then K0 else K1),
           Some ((rows @ [(K1, K0)]) @ [(K2, if K0 \<noteq> [] then K0 else K1)] @ []))"
      using assms(3) new by (rule fetch_append_new)
    with first s False show ?thesis by auto
  qed
qed

lemma example_keys: "plainKey ''k0''" "plainKey ''k1''" "plainKey ''k2''"
  by (simp_all add: plainKey_def plainChar_def)

theorem mapper_two_inserts_witness:
  "plainKey ''k0'' \<and> plainKey ''k1'' \<and> plainKey ''k2'' \<and>
   ''k0'' \<notin> fst ` set ([] :: (string \<times> string) list) \<and>
   ''k1'' \<notin> fst ` set ([] :: (string \<times> string) list) \<and>
   ''k2'' \<notin> fst ` set ([] :: (string \<times> string) list) \<and>
   fst (fetchMapKeyFromDB exampleOtherSQL
          (snd (insertMapKeyFromDB exampleOtherSQL
                  (snd (insertMapKeyFromDB exampleOtherSQL (Some []) ''k1'' ''k0''))
                  ''k2'' ''k1''))
          ''k2'') = Inr ''k0''"
proof -
  have h: "''k0'' \<notin> fst ` set ([] :: (string \<times> string) list)"
    "''k1'' \<notin> fst ` set ([] :: (string \<times> string) list)"
    "''k2'' \<notin> fst ` set ([] :: (string \<times> string) list)" by simp_all
  from mapper_two_inserts[OF example_keys h, of exampleOtherSQL] example_keys
  show ?thesis by simp
qed

text \<open>
  Claim C2 as stated says the fetch of \<open>K2\<close> returns \<open>K1\<close> and not \<open>K0\<close>. From the empty
  table, with three different plain keys, the two inserts leave the rows \<open>(k1, k0)\<close> and
  \<open>(k2, k0)\<close>, and the fetch of \<open>k2\<close> returns \<open>k0\<close>.
\<close>

theorem mapper_two_inserts_counterexample:
  "fst (fetchMapKeyFromDB exampleOtherSQL (Some []) ''k0'') = Inr [] \<and>
   fst (fetchMapKeyFromDB exampleOtherSQL (Some []) ''k1'') = Inr [] \<and>
   fst (fetchMapKeyFromDB exampleOtherSQL (Some []) ''k2'') = Inr [] \<and>
   snd (insertMapKeyFromDB exampleOtherSQL
          (snd (insertMapKeyFromDB exampleOtherSQL (Some []) ''k1'' ''k0'')) ''k2'' ''k1'') =
     Some [(''k1'', ''k0''), (''k2'', ''k0'')] \<and>
   fst (fetchMapKeyFromDB exampleOtherSQL
          (snd (insertMapKeyFromDB exampleOtherSQL
                  (snd (insertMapKeyFromDB exampleOtherSQL (Some []) ''k1'' ''k0''))
                  ''k2'' ''k1''))
          ''k2'') \<noteq> Inr ''k1'' \<and>
   fst (fetchMapKeyFromDB exampleOtherSQL
          (snd (insertMapKeyFromDB exampleOtherSQL
                  (snd (insertMapKeyFromDB exampleOtherSQL (Some []) ''k1'' ''k0''))
                  ''k2'' ''k1''))
          ''k2'') = Inr ''k0''"
proof -
  note k = example_keys
  have f: "fetchMapKeyFromDB exampleOtherSQL (Some []) ''k0'' = (Inr [], Some [])"
    "fetchMapKeyFromDB exampleOtherSQL (Some []) ''k1'' = (Inr [], Some [])"
    "fetchMapKeyFromDB exampleOtherSQL (Some []) ''k2'' = (Inr [], Some [])"
    by (simp_all add: fetch_plain k)
  have i1: "insertMapKeyFromDB exampleOtherSQL (Some []) ''k1'' ''k0'' =
              (None, Some [(''k1'', ''k0'')])"
    using insert_plain[OF k(2) k(1) f(1) plainKey_Nil] by simp
  have f1: "fetchMapKeyFromDB exampleOtherSQL (Some [(''k1'', ''k0'')]) ''k1'' =
              (Inr ''k0'', Some [(''k1'', ''k0'')])"
    by (simp add: fetch_plain k)
  have i2: "insertMapKeyFromDB exampleOtherSQL (Some [(''k1'', ''k0'')]) ''k2'' ''k1'' =
              (None, Some [(''k1'', ''k0''), (''k2'', ''k0'')])"
    using insert_plain[OF k(3) k(2) f1 k(1)] by simp
  have f2: "fetchMapKeyFromDB exampleOtherSQL (Some [(''k1'', ''k0''), (''k2'', ''k0'')]) ''k2'' =
              (Inr ''k0'', Some [(''k1'', ''k0''), (''k2'', ''k0'')])"
    by (simp add: fetch_plain k)
  show ?thesis by (simp add: f i1 i2 f2)
qed

text \<open>
  The condition on the keys is needed. A key with a quote in it makes a text that is not
  the select over that key; on an engine that answers such a text with a syntax error the
  first insert fails and stores nothing, the second stores \<open>k2\<close> against \<open>k1\<close>, and
  the fetch of \<open>k2\<close> returns \<open>k1\<close>.
\<close>

lemma quote_key_not_plain: "\<not> plainKey [CHR ''a'', CHR 0x27, CHR ''b'']"
  by (simp add: plainKey_def plainChar_def)

lemma quote_key_select:
  "keyOfSelect (useIntervalDB @ selectText [CHR ''a'', CHR 0x27, CHR ''b'']) = None"
  by (simp add: keyOfSelect_def stripPrefix_def useIntervalDB_def selectText_def selectHead_def
      plainKey_def plainChar_def)

lemma quote_key_example:
  "fst (fetchMapKeyFromDB exampleOtherSQL
          (snd (insertMapKeyFromDB exampleOtherSQL
                  (snd (insertMapKeyFromDB exampleOtherSQL (Some []) ''k1''
                          [CHR ''a'', CHR 0x27, CHR ''b'']))
                  ''k2'' ''k1''))
          ''k2'') = Inr ''k1''"
proof -
  have i1: "insertMapKeyFromDB exampleOtherSQL (Some []) ''k1'' [CHR ''a'', CHR 0x27, CHR ''b''] =
              (Some (ErrExternal ''You have an error in your SQL syntax''), Some [])"
    by (simp add: insertMapKeyFromDB_def fetchMapKeyFromDB_def dbQuery_def quote_key_select
        exampleOtherSQL_def)
  have f1: "fetchMapKeyFromDB exampleOtherSQL (Some []) ''k1'' = (Inr [], Some [])"
    by (simp add: fetch_plain example_keys)
  have i2: "insertMapKeyFromDB exampleOtherSQL (Some []) ''k2'' ''k1'' =
              (None, Some [(''k2'', ''k1'')])"
    using insert_plain[OF example_keys(3) example_keys(2) f1 plainKey_Nil] by simp
  have f2: "fetchMapKeyFromDB exampleOtherSQL (Some [(''k2'', ''k1'')]) ''k2'' =
              (Inr ''k1'', Some [(''k2'', ''k1'')])"
    by (simp add: fetch_plain example_keys)
  show ?thesis by (simp add: i1 i2 f2)
qed

end
